theory Spec2Isabelle
  imports Main "HOL-Library.List_Lexorder"
begin

section \<open>Strings\<close>

text \<open>
  A Python \<open>str\<close> is a sequence of Unicode code points, so it is modelled as a list of
  natural numbers: slicing, \<open>ord\<close>, \<open>startswith\<close> and the comparison of two strings then
  count what Python counts. \<open>U\<close> turns a literal into its code points.
\<close>

type_synonym pystr = "nat list"

definition U :: "string \<Rightarrow> pystr" where
  "U s = map of_char s"

text \<open>\<open>bool(s)\<close> of an optional string or an optional list: \<open>None\<close> and the empty
  value are false.\<close>

fun truthy :: "'a list option \<Rightarrow> bool" where
  "truthy None = False"
| "truthy (Some xs) = (xs \<noteq> [])"

definition startswith :: "pystr \<Rightarrow> pystr \<Rightarrow> bool" where
  "startswith s pre = (take (length pre) s = pre)"

definition endswith :: "pystr \<Rightarrow> pystr \<Rightarrow> bool" where
  "endswith s suf = (length suf \<le> length s \<and> drop (length s - length suf) s = suf)"

text \<open>
  \<open>str.lower\<close>, as far as this program can observe it. The lower-cased name is only
  searched for the dot and compared with ASCII text (the keys of the extension table and
  the reserved names), so what matters is which code points become ASCII ones. Those are
  the letters \<open>A\<close>..\<open>Z\<close> and the Kelvin sign U+212A, whose lower case is \<open>k\<close>. Every other
  code point is left as it is: Python maps a code point outside ASCII to code points
  outside ASCII (U+0130 to \<open>i\<close> followed by U+0307, the others to one code point each), and
  text that has one of them equals no key and no reserved name, before and after.
\<close>

definition lower_char :: "nat \<Rightarrow> nat" where
  "lower_char c =
     (if 65 \<le> c \<and> c \<le> 90 then c + 32
      else if c = 8490 then 107
      else c)"

definition lower :: "pystr \<Rightarrow> pystr" where
  "lower s = map lower_char s"

text \<open>\<open>s.split(sep)\<close> for a one-character separator: never empty, \<open>''.split('.') == ['']\<close>.\<close>

fun split_on :: "nat \<Rightarrow> pystr \<Rightarrow> pystr list" where
  "split_on sep [] = [[]]"
| "split_on sep (c # cs) =
     (if c = sep then [] # split_on sep cs
      else (case split_on sep cs of
              w # ws \<Rightarrow> (c # w) # ws
            | [] \<Rightarrow> [[c]]))"

text \<open>\<open>sep.join(xs)\<close>.\<close>

fun join :: "pystr \<Rightarrow> pystr list \<Rightarrow> pystr" where
  "join sep [] = []"
| "join sep [x] = x"
| "join sep (x # y # ys) = x @ sep @ join sep (y # ys)"

text \<open>\<open>s.rfind('.')\<close> as an option: the index of the last occurrence.\<close>

fun rfind :: "nat \<Rightarrow> pystr \<Rightarrow> nat option" where
  "rfind ch [] = None"
| "rfind ch (c # cs) =
     (case rfind ch cs of
        Some i \<Rightarrow> Some (Suc i)
      | None \<Rightarrow> (if c = ch then Some 0 else None))"

section \<open>Paths\<close>

text \<open>
  A \<open>pathlib\<close> path on POSIX is represented by its \<open>parts\<close> tuple: the components, with the
  root (\<open>/\<close> or \<open>//\<close>) as first element when the path is absolute. Nothing is resolved:
  \<open>docs/a.md\<close>, \<open>/proj/docs/a.md\<close> and \<open>docs/../docs/a.md\<close> are three paths, whatever file
  they lead to. Two paths are equal when their parts are; Python 3.12 compares the strings
  of the paths instead, which is the same for the paths that \<open>pathlib\<close> makes (see
  \<open>well_formed\<close> below).
\<close>

type_synonym path = "pystr list"

definition Path_of :: "pystr \<Rightarrow> path" where
  "Path_of s =
     (let root = (if startswith s (U ''//'') \<and> \<not> startswith s (U ''///'') then [U ''//'']
                  else if startswith s (U ''/'') then [U ''/'']
                  else [])
      in root @ filter (\<lambda>x. x \<noteq> [] \<and> x \<noteq> U ''.'') (split_on 47 s))"

definition is_absolute :: "path \<Rightarrow> bool" where
  "is_absolute p = (case p of [] \<Rightarrow> False | a # _ \<Rightarrow> startswith a (U ''/''))"

definition parts :: "path \<Rightarrow> pystr list" where
  "parts p = p"

definition name :: "path \<Rightarrow> pystr" where
  "name p = (if length p = (if is_absolute p then 1 else 0) then [] else last p)"

definition suffix :: "path \<Rightarrow> pystr" where
  "suffix p =
     (let n = name p in
      case rfind 46 n of
        Some i \<Rightarrow> (if 0 < i \<and> i < length n - 1 then drop i n else [])
      | None \<Rightarrow> [])"

definition parent :: "path \<Rightarrow> path" where
  "parent p = (if length p = 1 \<and> is_absolute p then p else butlast p)"

definition path_str :: "path \<Rightarrow> pystr" where
  "path_str p =
     (let s = (if is_absolute p then hd p @ join (U ''/'') (tl p) else join (U ''/'') p)
      in if s = [] then U ''.'' else s)"

text \<open>\<open>p.relative_to(other)\<close>: \<open>None\<close> stands for the \<open>ValueError\<close>.\<close>

definition relative_to :: "path \<Rightarrow> path \<Rightarrow> path option" where
  "relative_to p other =
     (if other = [] then (if is_absolute p then None else Some p)
      else if take (length other) p = other then Some (drop (length other) p)
      else None)"

text \<open>\<open>p.absolute()\<close> in the working directory \<open>cwd\<close>: the path the operating system follows
  for \<open>p\<close>. The program never calls it; the sample file system below does.\<close>

definition absolute :: "pystr \<Rightarrow> path \<Rightarrow> path" where
  "absolute cwd p = (if is_absolute p then p else Path_of cwd @ p)"

text \<open>
  The order of paths is \<open>__lt__\<close> of \<open>PurePath\<close>, which changed between versions of the
  library. Through Python 3.11 it compares the parts (\<open>_cparts\<close>, the root being the part
  \<open>/\<close>); from Python 3.12 it compares \<open>str(p).split('/')\<close> (\<open>_parts_normcase\<close>, where
  the root leaves an empty first element). Either way the two lists of strings are
  compared lexicographically, code point by code point.
\<close>

datatype pathlib_version = Through_3_11 | From_3_12

fun path_key :: "pathlib_version \<Rightarrow> path \<Rightarrow> pystr list" where
  "path_key Through_3_11 p = parts p"
| "path_key From_3_12 p = split_on 47 (path_str p)"

text \<open>
  The paths that \<open>pathlib\<close> makes, from a string or from the name of a directory entry: no
  component is empty, is a single dot or has the separator in it, and an absolute path
  starts with one of the two roots. On such paths either key determines the path, so
  equal paths are paths with equal parts in every version, and no two different paths tie
  in the order.
\<close>

definition well_formed :: "path \<Rightarrow> bool" where
  "well_formed p =
     (list_all (\<lambda>c. c \<noteq> [] \<and> c \<noteq> U ''.'' \<and> 47 \<notin> set c)
        (if is_absolute p then tl p else p)
      \<and> (is_absolute p \<longrightarrow> hd p = U ''/'' \<or> hd p = U ''//''))"

section \<open>Language resolution\<close>

definition LANGUAGE_MAP :: "(pystr \<times> pystr) list" where
  "LANGUAGE_MAP = map (\<lambda>(k, v). (U k, U v))
    [(''.py'', ''python''),
     (''.js'', ''javascript''),
     (''.ts'', ''typescript''),
     (''.tsx'', ''typescript''),
     (''.jsx'', ''javascript''),
     (''.java'', ''java''),
     (''.c'', ''c''),
     (''.cpp'', ''cpp''),
     (''.cc'', ''cpp''),
     (''.cxx'', ''cpp''),
     (''.h'', ''c''),
     (''.hpp'', ''cpp''),
     (''.cs'', ''csharp''),
     (''.go'', ''go''),
     (''.rs'', ''rust''),
     (''.php'', ''php''),
     (''.rb'', ''ruby''),
     (''.swift'', ''swift''),
     (''.kt'', ''kotlin''),
     (''.scala'', ''scala''),
     (''.sh'', ''bash''),
     (''.bash'', ''bash''),
     (''.zsh'', ''zsh''),
     (''.fish'', ''fish''),
     (''.ps1'', ''powershell''),
     (''.sql'', ''sql''),
     (''.html'', ''html''),
     (''.css'', ''css''),
     (''.scss'', ''scss''),
     (''.sass'', ''sass''),
     (''.less'', ''less''),
     (''.xml'', ''xml''),
     (''.json'', ''json''),
     (''.yaml'', ''yaml''),
     (''.yml'', ''yaml''),
     (''.toml'', ''toml''),
     (''.ini'', ''ini''),
     (''.cfg'', ''ini''),
     (''.conf'', ''ini''),
     (''.md'', ''markdown''),
     (''.txt'', ''text''),
     (''.log'', ''text''),
     (''.env'', ''bash''),
     (''.dockerfile'', ''dockerfile''),
     (''.makefile'', ''makefile''),
     (''.gradle'', ''gradle''),
     (''.r'', ''r''),
     (''.R'', ''r''),
     (''.m'', ''matlab''),
     (''.pl'', ''perl''),
     (''.lua'', ''lua''),
     (''.vim'', ''vim''),
     (''.dart'', ''dart''),
     (''.elm'', ''elm''),
     (''.ex'', ''elixir''),
     (''.exs'', ''elixir''),
     (''.clj'', ''clojure''),
     (''.cljs'', ''clojure''),
     (''.hs'', ''haskell''),
     (''.ml'', ''ocaml''),
     (''.fs'', ''fsharp''),
     (''.jl'', ''julia''),
     (''.nim'', ''nim''),
     (''.zig'', ''zig'')]"

text \<open>The loop \<open>for i in range(len(parts) - 1, 0, -1)\<close> of \<open>get_file_language\<close>, over
  the parts it visits in the order it visits them.\<close>

fun scan_extensions :: "pystr list \<Rightarrow> pystr option" where
  "scan_extensions [] = None"
| "scan_extensions (part # rest) =
     (let extension = U ''.'' @ part in
      case map_of LANGUAGE_MAP extension of
        Some language \<Rightarrow> Some language
      | None \<Rightarrow> scan_extensions rest)"

definition get_file_language :: "path \<Rightarrow> pystr" where
  "get_file_language file_path =
     (let filename = lower (name file_path) in
      if 46 \<notin> set filename then
        (if filename \<in> set [U ''dockerfile'', U ''makefile'', U ''rakefile'', U ''gemfile'']
         then filename
         else if startswith filename (U ''makefile'') then U ''makefile''
         else U ''text'')
      else
        (case scan_extensions (rev (tl (split_on 46 filename))) of
           Some language \<Rightarrow> language
         | None \<Rightarrow>
             (let extension = lower (suffix file_path) in
              case map_of LANGUAGE_MAP extension of
                Some language \<Rightarrow> language
              | None \<Rightarrow> U ''text'')))"

section \<open>Ignore patterns\<close>

definition DEFAULT_IGNORE_PATTERNS :: "pystr list" where
  "DEFAULT_IGNORE_PATTERNS = map U
    [''.git'', ''.gitignore'', ''.gitmodules'', ''__pycache__'', ''.pytest_cache'',
     ''node_modules'', ''.npm'', ''.yarn'', ''package-lock.json'', ''yarn.lock'',
     ''.env'', ''.venv'', ''env'', ''venv'', ''.DS_Store'', ''Thumbs.db'',
     ''*.pyc'', ''*.pyo'', ''*.pyd'', ''*.so'', ''*.dylib'', ''*.dll'', ''*.exe'',
     ''*.o'', ''*.obj'', ''*.a'', ''*.lib'', ''*.log'',
     ''.idea'', ''.vscode'', ''.vs'', ''*.swp'', ''*.swo'', ''*~'',
     ''.coverage'', ''.nyc_output'', ''coverage'', ''dist'', ''build'', ''target'',
     ''bin'', ''obj'', ''.next'', ''.nuxt'', ''.svelte-kit'', ''node_modules.nosync'',
     ''.tmp'', ''.temp'']"

fun should_ignore_file :: "path \<Rightarrow> pystr list \<Rightarrow> bool" where
  "should_ignore_file file_path [] = False"
| "should_ignore_file file_path (pattern # ignore_patterns) =
     (let filename = name file_path; path_parts = parts file_path in
      if pattern = filename then True
      else if startswith pattern (U ''*'') \<and> endswith filename (drop 1 pattern) then True
      else if pattern \<in> set path_parts then True
      else should_ignore_file file_path ignore_patterns)"

section \<open>Fence width\<close>

text \<open>The loop of \<open>count_max_backticks\<close> with its two counters.\<close>

fun count_backticks_from :: "nat \<Rightarrow> nat \<Rightarrow> pystr \<Rightarrow> nat" where
  "count_backticks_from max_backticks current_backticks [] = max_backticks"
| "count_backticks_from max_backticks current_backticks (char # content) =
     (if char = 96
      then count_backticks_from (max max_backticks (current_backticks + 1))
             (current_backticks + 1) content
      else count_backticks_from max_backticks 0 content)"

definition count_max_backticks :: "pystr \<Rightarrow> nat" where
  "count_max_backticks content = count_backticks_from 0 0 content"

section \<open>The environment\<close>

text \<open>
  The operating system, the file system and the language-model client are outside the
  program. They are a record of functions: what each call answers, as a function of the
  process's working directory and of the call's arguments. A call that can raise answers
  a sum, with the text of the exception on the left. That includes \<open>exists\<close>, \<open>is_dir\<close>
  and \<open>is_file\<close>: in Python 3.11 and 3.12 they answer \<open>False\<close> for a missing entry, and
  raise the \<open>OSError\<close> of \<open>stat\<close> in other cases (a name that is too long, a directory
  that may not be searched).
  \<open>rglob\<close> answers the entries its iteration yields and the exception that ends the
  iteration, if one does. \<open>pathlib\<close> is the version of the library, for the order of paths.
\<close>

datatype encoding = UTF8 | Latin1

text \<open>What \<open>open(p, 'r', encoding=enc)\<close> followed by \<open>f.read()\<close> does: the decoded text, a
  \<open>UnicodeDecodeError\<close>, or another exception with its text.\<close>

datatype read_outcome = Content pystr | DecodeError | ReadError pystr

record env =
  os_getcwd :: "pystr \<Rightarrow> pystr + pystr"
  os_chdir :: "pystr \<Rightarrow> pystr \<Rightarrow> pystr + pystr"
  path_exists :: "pystr \<Rightarrow> path \<Rightarrow> pystr + bool"
  path_is_dir :: "pystr \<Rightarrow> path \<Rightarrow> pystr + bool"
  path_is_file :: "pystr \<Rightarrow> path \<Rightarrow> pystr + bool"
  path_rglob :: "pystr \<Rightarrow> path \<Rightarrow> path list \<times> pystr option"
  path_stat_size :: "pystr \<Rightarrow> path \<Rightarrow> pystr + nat"
  open_read :: "pystr \<Rightarrow> path \<Rightarrow> encoding \<Rightarrow> read_outcome"
  path_mkdir :: "pystr \<Rightarrow> path \<Rightarrow> pystr option"
  open_write :: "pystr \<Rightarrow> path \<Rightarrow> pystr \<Rightarrow> pystr option"
  prompt :: "pystr \<Rightarrow> pystr list \<Rightarrow> pystr + pystr list"
  pathlib :: pathlib_version

text \<open>
  Every call on the environment and every log record is written to a trace, in the order
  the program makes them. \<open>os_chdir\<close> answers the new working directory; \<open>path_mkdir\<close> and
  \<open>open_write\<close> answer \<open>None\<close> on success.
\<close>

datatype log_level = INFO | WARNING | ERROR

datatype log_msg =
    BuildingContext "pystr list option" "pystr list option"
  | ChangedWorkingDirectory pystr
  | DirectoryDoesNotExist pystr
  | NotADirectory pystr
  | SkippingLargeFile path
  | CannotAccessFile path pystr
  | FileDoesNotExist pystr
  | NotAFile pystr
  | FileIgnored pystr
  | CollectedFiles nat
  | FailedToGenerateSummary path pystr
  | ErrorProcessingFile path pystr
  | ContextFileGenerated path
  | ErrorWritingContextFile "pystr option" pystr
  | RestoredWorkingDirectory pystr

datatype event =
    Log log_level log_msg
  | Getcwd
  | Chdir pystr
  | Exists path
  | IsDir path
  | Rglob path
  | IsFile path
  | Stat path
  | OpenRead path encoding
  | Mkdir path
  | OpenWrite path pystr
  | Prompt pystr "pystr list"

datatype py_error = ValueError pystr | OSError pystr

section \<open>Collecting files\<close>

text \<open>The size check shared by both loops of \<open>collect_files\<close>: the \<open>try\<close> around
  \<open>file_path.stat().st_size\<close>.\<close>

definition check_size :: "env \<Rightarrow> pystr \<Rightarrow> path \<Rightarrow> path list \<times> event list" where
  "check_size e cwd file_path =
     (case path_stat_size e cwd file_path of
        Inr st_size \<Rightarrow>
          (if st_size > 1024 * 1024
           then ([], [Stat file_path, Log WARNING (SkippingLargeFile file_path)])
           else ([file_path], [Stat file_path]))
      | Inl err \<Rightarrow> ([], [Stat file_path, Log WARNING (CannotAccessFile file_path err)]))"

text \<open>
  A step of a loop followed by the rest of the loop. An exception (\<open>Inl\<close>, with its text)
  ends the loop where it is raised, with the trace up to there; otherwise the files found
  are appended, and the traces.
\<close>

fun and_then ::
  "(pystr + path list) \<times> event list \<Rightarrow> (pystr + path list) \<times> event list
     \<Rightarrow> (pystr + path list) \<times> event list" where
  "and_then (Inl err, ev) rest = (Inl err, ev)"
| "and_then (Inr found, ev) (Inl err, ev') = (Inl err, ev @ ev')"
| "and_then (Inr found, ev) (Inr later, ev') = (Inr (found @ later), ev @ ev')"

text \<open>The body of the loop over \<open>dir_path.rglob('*')\<close>, and the loop over the entries
  that the iteration yields.\<close>

definition walk_entry ::
  "env \<Rightarrow> pystr \<Rightarrow> pystr list \<Rightarrow> path \<Rightarrow> (pystr + path list) \<times> event list" where
  "walk_entry e cwd pats file_path =
     (case path_is_file e cwd file_path of
        Inl err \<Rightarrow> (Inl err, [IsFile file_path])
      | Inr is_file \<Rightarrow>
          (if is_file \<and> \<not> should_ignore_file file_path pats
           then (case check_size e cwd file_path of
                   (fs, sev) \<Rightarrow> (Inr fs, IsFile file_path # sev))
           else (Inr [], [IsFile file_path])))"

fun collect_walk ::
  "env \<Rightarrow> pystr \<Rightarrow> pystr list \<Rightarrow> path list \<Rightarrow> (pystr + path list) \<times> event list" where
  "collect_walk e cwd pats [] = (Inr [], [])"
| "collect_walk e cwd pats (file_path # rest) =
     and_then (walk_entry e cwd pats file_path) (collect_walk e cwd pats rest)"

text \<open>The body of the loop \<open>for directory in directories\<close>. Neither \<open>exists\<close> nor
  \<open>is_dir\<close> nor the iteration is inside a \<open>try\<close>.\<close>

definition collect_directory ::
  "env \<Rightarrow> pystr \<Rightarrow> pystr list \<Rightarrow> pystr \<Rightarrow> (pystr + path list) \<times> event list" where
  "collect_directory e cwd pats directory =
     (let dir_path = Path_of directory in
      case path_exists e cwd dir_path of
        Inl err \<Rightarrow> (Inl err, [Exists dir_path])
      | Inr dir_exists \<Rightarrow>
          (if \<not> dir_exists
           then (Inr [], [Exists dir_path, Log WARNING (DirectoryDoesNotExist directory)])
           else
             (case path_is_dir e cwd dir_path of
                Inl err \<Rightarrow> (Inl err, [Exists dir_path, IsDir dir_path])
              | Inr is_dir \<Rightarrow>
                  (if \<not> is_dir
                   then (Inr [], [Exists dir_path, IsDir dir_path,
                                  Log WARNING (NotADirectory directory)])
                   else
                     (case path_rglob e cwd dir_path of
                        (entries, raised) \<Rightarrow>
                          and_then (Inr [], [Exists dir_path, IsDir dir_path, Rglob dir_path])
                            (and_then (collect_walk e cwd pats entries)
                               (case raised of
                                  None \<Rightarrow> (Inr [], [])
                                | Some err \<Rightarrow> (Inl err, []))))))))"

fun collect_directories ::
  "env \<Rightarrow> pystr \<Rightarrow> pystr list \<Rightarrow> pystr list \<Rightarrow> (pystr + path list) \<times> event list" where
  "collect_directories e cwd pats [] = (Inr [], [])"
| "collect_directories e cwd pats (directory # rest) =
     and_then (collect_directory e cwd pats directory) (collect_directories e cwd pats rest)"

text \<open>The body of the loop \<open>for file_str in files\<close>, and the loop.\<close>

definition collect_file ::
  "env \<Rightarrow> pystr \<Rightarrow> pystr list \<Rightarrow> pystr \<Rightarrow> (pystr + path list) \<times> event list" where
  "collect_file e cwd pats file_str =
     (let file_path = Path_of file_str in
      case path_exists e cwd file_path of
        Inl err \<Rightarrow> (Inl err, [Exists file_path])
      | Inr file_exists \<Rightarrow>
          (if \<not> file_exists
           then (Inr [], [Exists file_path, Log WARNING (FileDoesNotExist file_str)])
           else
             (case path_is_file e cwd file_path of
                Inl err \<Rightarrow> (Inl err, [Exists file_path, IsFile file_path])
              | Inr is_file \<Rightarrow>
                  (if \<not> is_file
                   then (Inr [], [Exists file_path, IsFile file_path,
                                  Log WARNING (NotAFile file_str)])
                   else if should_ignore_file file_path pats
                   then (Inr [], [Exists file_path, IsFile file_path,
                                  Log INFO (FileIgnored file_str)])
                   else (case check_size e cwd file_path of
                           (fs, sev) \<Rightarrow>
                             (Inr fs, [Exists file_path, IsFile file_path] @ sev))))))"

fun collect_listed ::
  "env \<Rightarrow> pystr \<Rightarrow> pystr list \<Rightarrow> pystr list \<Rightarrow> (pystr + path list) \<times> event list" where
  "collect_listed e cwd pats [] = (Inr [], [])"
| "collect_listed e cwd pats (file_str # rest) =
     and_then (collect_file e cwd pats file_str) (collect_listed e cwd pats rest)"

fun the_list :: "'a list option \<Rightarrow> 'a list" where
  "the_list None = []"
| "the_list (Some xs) = xs"

text \<open>
  \<open>collect_files\<close>: both loops, then \<open>sorted(list(set(collected_files)))\<close>. The set keeps
  one of each group of equal paths and the sort puts them in ascending order of
  \<open>path_key\<close>; \<open>Inl\<close> is an exception that left one of the loops.
\<close>

definition collect_files ::
  "env \<Rightarrow> pystr \<Rightarrow> pystr list option \<Rightarrow> pystr list option \<Rightarrow> pystr list option
     \<Rightarrow> (pystr + path list) \<times> event list" where
  "collect_files e cwd directories files ignore_patterns =
     (let pats = (case ignore_patterns of None \<Rightarrow> DEFAULT_IGNORE_PATTERNS | Some ps \<Rightarrow> ps);
          walked =
            (if truthy directories then collect_directories e cwd pats (the_list directories)
             else (Inr [], []));
          listed =
            (if truthy files then collect_listed e cwd pats (the_list files)
             else (Inr [], []))
      in case and_then walked listed of
           (Inl err, ev) \<Rightarrow> (Inl err, ev)
         | (Inr collected_files, ev) \<Rightarrow>
             (Inr (sort_key (path_key (pathlib e)) (remdups collected_files)), ev))"

section \<open>Reading a file\<close>

text \<open>\<open>str(i)\<close> for a natural number, and the format \<open>{i:>4}\<close>.\<close>

fun str_of_nat :: "nat \<Rightarrow> pystr" where
  "str_of_nat n = (if n < 10 then [48 + n] else str_of_nat (n div 10) @ [48 + n mod 10])"

declare str_of_nat.simps [simp del]

definition rjust4 :: "pystr \<Rightarrow> pystr" where
  "rjust4 s = replicate (4 - length s) 32 @ s"

text \<open>\<open>str.splitlines()\<close>: the line boundaries of Python, \<open>\r\n\<close> counting as one, and no
  empty last line.\<close>

definition is_linebreak :: "nat \<Rightarrow> bool" where
  "is_linebreak c = (c \<in> set [10, 11, 12, 13, 28, 29, 30, 133, 8232, 8233])"

fun splitlines_from :: "pystr \<Rightarrow> pystr \<Rightarrow> pystr list" where
  "splitlines_from line [] = (if line = [] then [] else [line])"
| "splitlines_from line [c] =
     (if is_linebreak c then [line] else [line @ [c]])"
| "splitlines_from line (c # d # cs) =
     (if c = 13 \<and> d = 10 then line # splitlines_from [] cs
      else if is_linebreak c then line # splitlines_from [] (d # cs)
      else splitlines_from (line @ [c]) (d # cs))"

definition splitlines :: "pystr \<Rightarrow> pystr list" where
  "splitlines s = splitlines_from [] s"

text \<open>The numbering loop: \<open>f"{i:>4}\<rightarrow>{line}"\<close> for \<open>enumerate(lines, 1)\<close>, joined by
  newlines. The separator is U+2192.\<close>

fun numbered_lines_from :: "nat \<Rightarrow> pystr list \<Rightarrow> pystr list" where
  "numbered_lines_from i [] = []"
| "numbered_lines_from i (line # lines) =
     (rjust4 (str_of_nat i) @ [8594] @ line) # numbered_lines_from (i + 1) lines"

definition render_content :: "bool \<Rightarrow> pystr \<Rightarrow> pystr" where
  "render_content include_line_numbers content =
     (if include_line_numbers
      then join [10] (numbered_lines_from 1 (splitlines content))
      else content)"

definition read_file_content :: "env \<Rightarrow> pystr \<Rightarrow> path \<Rightarrow> bool \<Rightarrow> pystr \<times> event list" where
  "read_file_content e cwd file_path include_line_numbers =
     (case open_read e cwd file_path UTF8 of
        Content content \<Rightarrow>
          (render_content include_line_numbers content, [OpenRead file_path UTF8])
      | DecodeError \<Rightarrow>
          (case open_read e cwd file_path Latin1 of
             Content content \<Rightarrow>
               (if list_all (\<lambda>c. c < 128) (take 100 content)
                then render_content include_line_numbers content
                else U ''[Binary file - content not displayed]'',
                [OpenRead file_path UTF8, OpenRead file_path Latin1])
           | DecodeError \<Rightarrow>
               (U ''[Error reading file: Unable to decode]'',
                [OpenRead file_path UTF8, OpenRead file_path Latin1])
           | ReadError err \<Rightarrow>
               (U ''[Error reading file: Unable to decode]'',
                [OpenRead file_path UTF8, OpenRead file_path Latin1]))
      | ReadError err \<Rightarrow>
          (U ''[Error reading file: '' @ err @ U '']'', [OpenRead file_path UTF8]))"

section \<open>Summaries\<close>

text \<open>\<open>str.strip()\<close>: the code points for which \<open>str.isspace\<close> holds are removed at both
  ends.\<close>

definition is_space :: "nat \<Rightarrow> bool" where
  "is_space c =
     (c \<in> set [9, 10, 11, 12, 13, 28, 29, 30, 31, 32, 133, 160, 5760, 8232, 8233, 8239,
                8287, 12288]
      \<or> (8192 \<le> c \<and> c \<le> 8202))"

definition strip :: "pystr \<Rightarrow> pystr" where
  "strip s = rev (dropWhile is_space (rev (dropWhile is_space s)))"

definition summary_prompt_of :: "path \<Rightarrow> pystr \<Rightarrow> pystr" where
  "summary_prompt_of file_path content =
     [10]
     @ U ''Analyze this file and provide a brief 1-2 sentence summary of its purpose and functionality.''
     @ [10, 10] @ U ''File: '' @ path_str file_path
     @ [10, 10] @ U ''Content:'' @ [10] @ U ''```'' @ [10]
     @ take 2000 content @ U ''...'' @ [10] @ U ''```''
     @ [10, 10] @ U ''Respond only with the summary, no additional text.'' @ [10]"

text \<open>\<open>prompt\<close> of the environment is the function \<open>prompt\<close> imported from the package's
  \<open>prompt\<close> module: it answers the list of responses or raises.\<close>

definition generate_file_summary ::
  "env \<Rightarrow> path \<Rightarrow> pystr \<Rightarrow> pystr \<Rightarrow> pystr \<times> event list" where
  "generate_file_summary e file_path content model =
     (let summary_prompt = summary_prompt_of file_path content in
      case prompt e summary_prompt [model] of
        Inr responses \<Rightarrow>
          (if responses \<noteq> [] \<and> length responses > 0
           then (strip (hd responses), [Prompt summary_prompt [model]])
           else (U ''No summary available'', [Prompt summary_prompt [model]]))
      | Inl err \<Rightarrow>
          (U ''Summary generation failed'',
           [Prompt summary_prompt [model],
            Log WARNING (FailedToGenerateSummary file_path err)]))"

section \<open>Building the document\<close>

text \<open>
  The body of the loop \<open>for file_path in collected_files\<close>: the lines it appends to
  \<open>content_lines\<close> and its trace. \<open>Path.cwd()\<close> is the only call that can raise inside
  the \<open>try\<close>; the handler then appends the error section.
\<close>

definition process_file ::
  "env \<Rightarrow> pystr \<Rightarrow> pystr option \<Rightarrow> bool \<Rightarrow> path \<Rightarrow> pystr list \<times> event list" where
  "process_file e cwd summarize_model include_line_numbers file_path =
     (case os_getcwd e cwd of
        Inl err \<Rightarrow>
          ([U ''## '' @ path_str file_path,
            [],
            U ''[Error processing file: '' @ err @ U '']'',
            []],
           [Getcwd, Log ERROR (ErrorProcessingFile file_path err)])
      | Inr c \<Rightarrow>
          (let relative_path =
                 (case relative_to file_path (Path_of c) of
                    Some r \<Rightarrow> r
                  | None \<Rightarrow> file_path);
               (file_content, read_ev) =
                 read_file_content e cwd file_path include_line_numbers;
               language = get_file_language file_path;
               heading = [U ''## '' @ path_str relative_path];
               (summary_section, summary_ev) =
                 (if truthy summarize_model \<and> \<not> startswith file_content (U ''['')
                  then (case generate_file_summary e file_path file_content
                               (the_list summarize_model) of
                          (summary, ev) \<Rightarrow> ([U ''### Summary'', summary, []], ev))
                  else ([U ''### Summary'', U ''[No summary available]'', []], []));
               contents_heading = [U ''### File Contents''];
               code_block =
                 (if language = U ''markdown''
                  then (let max_backticks = count_max_backticks file_content;
                            fence_backticks = replicate (max_backticks + 1) 96
                        in [fence_backticks @ language, file_content, fence_backticks, []])
                  else [U ''```'' @ language, file_content, U ''```'', []])
           in (heading @ summary_section @ contents_heading @ code_block,
               [Getcwd] @ read_ev @ summary_ev)))"

fun process_files ::
  "env \<Rightarrow> pystr \<Rightarrow> pystr option \<Rightarrow> bool \<Rightarrow> path list \<Rightarrow> pystr list \<times> event list" where
  "process_files e cwd summarize_model include_line_numbers [] = ([], [])"
| "process_files e cwd summarize_model include_line_numbers (file_path # rest) =
     (let (lines, ev) = process_file e cwd summarize_model include_line_numbers file_path;
          (more, ev') = process_files e cwd summarize_model include_line_numbers rest
      in (lines @ more, ev @ ev'))"

text \<open>The base path for relative paths; \<open>Inl\<close> is the text of an exception of
  \<open>Path.cwd()\<close>.\<close>

definition base_path_of ::
  "env \<Rightarrow> pystr \<Rightarrow> pystr option \<Rightarrow> pystr list option \<Rightarrow> pystr list option
     \<Rightarrow> (pystr + path) \<times> event list" where
  "base_path_of e cwd base_directory directories files =
     (if truthy base_directory then (Inr (Path_of (the_list base_directory)), [])
      else if truthy directories then (Inr (Path_of (hd (the_list directories))), [])
      else if truthy files then (Inr (parent (Path_of (hd (the_list files)))), [])
      else (case os_getcwd e cwd of
              Inl err \<Rightarrow> (Inl err, [Getcwd])
            | Inr c \<Rightarrow> (Inr (Path_of c), [Getcwd])))"

text \<open>Writing the context file. \<open>Path(None)\<close> raises a \<open>TypeError\<close> with the text
  below.\<close>

definition write_context_file ::
  "env \<Rightarrow> pystr \<Rightarrow> pystr option \<Rightarrow> pystr list \<Rightarrow> (pystr + pystr) \<times> event list" where
  "write_context_file e cwd output_file content_lines =
     (case output_file of
        None \<Rightarrow> (Inl (U ''expected str, bytes or os.PathLike object, not NoneType''), [])
      | Some out \<Rightarrow>
          (let output_path = Path_of out in
           case path_mkdir e cwd (parent output_path) of
             Some err \<Rightarrow> (Inl err, [Mkdir (parent output_path)])
           | None \<Rightarrow>
               (case open_write e cwd output_path (join [10] content_lines) of
                  Some err \<Rightarrow>
                    (Inl err,
                     [Mkdir (parent output_path),
                      OpenWrite output_path (join [10] content_lines)])
                | None \<Rightarrow>
                    (Inr (path_str output_path),
                     [Mkdir (parent output_path),
                      OpenWrite output_path (join [10] content_lines),
                      Log INFO (ContextFileGenerated output_path)]))))"

text \<open>The block under \<open>try:\<close>. \<open>Inl\<close> carries \<open>str(e)\<close> of the exception that leaves
  it.\<close>

definition try_block ::
  "env \<Rightarrow> pystr \<Rightarrow> pystr list option \<Rightarrow> pystr list option \<Rightarrow> pystr option \<Rightarrow> pystr option
     \<Rightarrow> pystr option \<Rightarrow> pystr list option \<Rightarrow> pystr option \<Rightarrow> bool
     \<Rightarrow> (pystr + pystr) \<times> event list" where
  "try_block e cwd directories files output_file overview_text summarize_model
       ignore_patterns base_directory include_line_numbers =
     (case base_path_of e cwd base_directory directories files of
        (Inl err, ev0) \<Rightarrow> (Inl err, ev0)
      | (Inr base_path, ev0) \<Rightarrow>
          (case collect_files e cwd directories files ignore_patterns of
             (Inl err, ev1) \<Rightarrow> (Inl err, ev0 @ ev1)
           | (Inr collected_files, ev1) \<Rightarrow>
               (let ev2 = [Log INFO (CollectedFiles (length collected_files))];
                    overview =
                      (if truthy overview_text then [the_list overview_text, []] else []);
                    files_heading = [U ''# Files'', []];
                    (file_lines, ev3) =
                      process_files e cwd summarize_model include_line_numbers collected_files;
                    content_lines = overview @ files_heading @ file_lines;
                    (result, ev4) = write_context_file e cwd output_file content_lines
                in (result, ev0 @ ev1 @ ev2 @ ev3 @ ev4))))"

text \<open>The handler \<open>except Exception as e\<close> of that \<open>try\<close>.\<close>

definition except_block ::
  "pystr option \<Rightarrow> (pystr + pystr) \<times> event list \<Rightarrow> (py_error + pystr) \<times> event list" where
  "except_block output_file r =
     (case r of
        (Inr output_path, ev) \<Rightarrow> (Inr output_path, ev)
      | (Inl err, ev) \<Rightarrow>
          (Inl (ValueError (U ''Error writing context file: '' @ err)),
           ev @ [Log ERROR (ErrorWritingContextFile output_file err)]))"

text \<open>The \<open>finally\<close> block: the result of the \<open>try\<close>, the working directory and the
  trace so far go in; an exception of \<open>os.chdir\<close> replaces the result.\<close>

definition finally_block ::
  "env \<Rightarrow> pystr option \<Rightarrow> pystr \<Rightarrow> (py_error + pystr) \<times> event list
     \<Rightarrow> (py_error + pystr) \<times> pystr \<times> event list" where
  "finally_block e original_cwd cwd r =
     (case r of (result, ev) \<Rightarrow>
        (if truthy original_cwd
         then (case os_chdir e cwd (the_list original_cwd) of
                 Inl err \<Rightarrow> (Inl (OSError err), cwd, ev @ [Chdir (the_list original_cwd)])
               | Inr c \<Rightarrow>
                   (result, c,
                    ev @ [Chdir (the_list original_cwd),
                          Log INFO (RestoredWorkingDirectory (the_list original_cwd))]))
         else (result, cwd, ev)))"

text \<open>
  \<open>build_context\<close> in the environment \<open>e\<close>, started in the working directory \<open>cwd\<close>: what
  it returns or raises, the working directory it leaves, and its trace.
\<close>

definition build_context ::
  "env \<Rightarrow> pystr \<Rightarrow> pystr list option \<Rightarrow> pystr list option \<Rightarrow> pystr option \<Rightarrow> pystr option
     \<Rightarrow> pystr option \<Rightarrow> pystr list option \<Rightarrow> pystr option \<Rightarrow> pystr option \<Rightarrow> bool
     \<Rightarrow> (py_error + pystr) \<times> pystr \<times> event list" where
  "build_context e cwd directories files output_file overview_text summarize_model
       ignore_patterns base_directory current_working_directory include_line_numbers =
     (if \<not> truthy directories \<and> \<not> truthy files
      then (Inl (ValueError (U ''At least one of 'directories' or 'files' must be provided'')),
            cwd, [])
      else
        (let ev = [Log INFO (BuildingContext directories files)] in
         if truthy current_working_directory
         then
           (case os_getcwd e cwd of
              Inl err \<Rightarrow> (Inl (OSError err), cwd, ev @ [Getcwd])
            | Inr original_cwd \<Rightarrow>
                (case os_chdir e cwd (the_list current_working_directory) of
                   Inl err \<Rightarrow>
                     (Inl (OSError err), cwd,
                      ev @ [Getcwd, Chdir (the_list current_working_directory)])
                 | Inr new_cwd \<Rightarrow>
                     (case except_block output_file
                             (try_block e new_cwd directories files output_file overview_text
                                summarize_model ignore_patterns base_directory
                                include_line_numbers) of
                        (result, ev') \<Rightarrow>
                          finally_block e (Some original_cwd) new_cwd
                            (result,
                             ev @ [Getcwd, Chdir (the_list current_working_directory),
                                   Log INFO (ChangedWorkingDirectory
                                               (the_list current_working_directory))]
                                @ ev'))))
         else
           (case except_block output_file
                   (try_block e cwd directories files output_file overview_text
                      summarize_model ignore_patterns base_directory include_line_numbers) of
              (result, ev') \<Rightarrow> finally_block e None cwd (result, ev @ ev'))))"

section \<open>What the collector is to return\<close>

text \<open>
  The file set of the specification, to be compared with \<open>collect_files\<close>. A path is
  acceptable when the file test answers true for it, no ignore pattern matches it, and its
  size can be read and is at most 1 MiB. A directory of the list is usable when both its
  tests answer true, and skipped when the existence test answers false or the directory
  test does. The walked files are the acceptable paths that the recursive listing of a
  usable directory yields; the listed files are the existing acceptable paths of the
  explicit list.
\<close>

definition acceptable :: "env \<Rightarrow> pystr \<Rightarrow> pystr list \<Rightarrow> path \<Rightarrow> bool" where
  "acceptable e cwd pats fp =
     (path_is_file e cwd fp = Inr True \<and> \<not> should_ignore_file fp pats \<and>
      (case path_stat_size e cwd fp of Inr st_size \<Rightarrow> st_size \<le> 1024 * 1024 | Inl err \<Rightarrow> False))"

definition usable_directory :: "env \<Rightarrow> pystr \<Rightarrow> pystr \<Rightarrow> bool" where
  "usable_directory e cwd d =
     (path_exists e cwd (Path_of d) = Inr True \<and> path_is_dir e cwd (Path_of d) = Inr True)"


definition spec_walked :: "env \<Rightarrow> pystr \<Rightarrow> pystr list \<Rightarrow> pystr list \<Rightarrow> path set" where
  "spec_walked e cwd pats ds =
     {fp. \<exists>d \<in> set ds. usable_directory e cwd d \<and>
            fp \<in> set (fst (path_rglob e cwd (Path_of d))) \<and> acceptable e cwd pats fp}"

definition spec_listed :: "env \<Rightarrow> pystr \<Rightarrow> pystr list \<Rightarrow> pystr list \<Rightarrow> path set" where
  "spec_listed e cwd pats fs =
     {fp. \<exists>f \<in> set fs. fp = Path_of f \<and> path_exists e cwd fp = Inr True \<and>
            acceptable e cwd pats fp}"

definition patterns_of :: "pystr list option \<Rightarrow> pystr list" where
  "patterns_of ignore_patterns =
     (case ignore_patterns of None \<Rightarrow> DEFAULT_IGNORE_PATTERNS | Some ps \<Rightarrow> ps)"

text \<open>No test that \<open>collect_files\<close> makes for these directories and these files raises, and
  no iteration over a directory does.\<close>

definition tests_answer :: "env \<Rightarrow> pystr \<Rightarrow> pystr list \<Rightarrow> pystr list \<Rightarrow> bool" where
  "tests_answer e cwd ds fs =
     (list_all (\<lambda>d. \<not> isl (path_exists e cwd (Path_of d)) \<and>
                    \<not> isl (path_is_dir e cwd (Path_of d)) \<and>
                    snd (path_rglob e cwd (Path_of d)) = None \<and>
                    list_all (\<lambda>fp. \<not> isl (path_is_file e cwd fp))
                      (fst (path_rglob e cwd (Path_of d)))) ds
      \<and> list_all (\<lambda>f. \<not> isl (path_exists e cwd (Path_of f)) \<and>
                      \<not> isl (path_is_file e cwd (Path_of f))) fs)"

text \<open>Events that change the working directory, and calls of the summarizer.\<close>

fun is_chdir :: "event \<Rightarrow> bool" where
  "is_chdir (Chdir d) = True"
| "is_chdir ev = False"

fun is_prompt :: "event \<Rightarrow> bool" where
  "is_prompt (Prompt p ms) = True"
| "is_prompt ev = False"

section \<open>A sample environment\<close>

text \<open>
  A file system with the directories \<open>/proj\<close>, \<open>/proj/docs\<close> and \<open>/work\<close>, and four files
  in \<open>/proj/docs\<close>: a Markdown file without backticks, a JSON array, a Latin-1 text whose
  first non-ASCII character comes after a hundred ASCII ones, and a binary file of
  2000000 bytes. A relative path is followed from the working directory. As on Linux, a
  test on a path with a component of more than 255 characters raises \<open>OSError\<close> 36, and
  reading a missing file raises \<open>OSError\<close> 2. Nothing can be created under \<open>/sealed\<close>. The
  library is that of Python 3.11.
\<close>

definition sample_dirs :: "path list" where
  "sample_dirs =
     [Path_of (U ''/''), Path_of (U ''/proj''), Path_of (U ''/proj/docs''),
      Path_of (U ''/work'')]"

definition sample_files :: "path list" where
  "sample_files =
     [Path_of (U ''/proj/docs/data.json''), Path_of (U ''/proj/docs/README.md''),
      Path_of (U ''/proj/docs/legacy.txt''), Path_of (U ''/proj/docs/raw.bin'')]"


definition name_too_long :: "path \<Rightarrow> bool" where
  "name_too_long p = list_ex (\<lambda>c. 255 < length c) p"

definition errno :: "string \<Rightarrow> path \<Rightarrow> pystr" where
  "errno msg p = U msg @ U '': '' @ [39] @ path_str p @ [39]"

text \<open>A test of the sample file system: \<open>holds\<close> says whether the entry that the path
  leads to passes.\<close>

definition sample_test :: "(path \<Rightarrow> bool) \<Rightarrow> pystr \<Rightarrow> path \<Rightarrow> pystr + bool" where
  "sample_test holds cwd p =
     (if name_too_long p then Inl (errno ''[Errno 36] File name too long'' p)
      else Inr (holds (absolute cwd p)))"

text \<open>The entries below a directory, each spelled as \<open>rglob\<close> spells it: the path that
  was asked for, extended by the names that lead to the entry.\<close>

definition sample_rglob :: "pystr \<Rightarrow> path \<Rightarrow> path list" where
  "sample_rglob cwd p =
     (let a = absolute cwd p in
      map (\<lambda>q. p @ drop (length a) q)
        (filter (\<lambda>q. length a < length q \<and> take (length a) q = a)
           (sample_dirs @ sample_files)))"

definition sample_read :: "path \<Rightarrow> encoding \<Rightarrow> read_outcome option" where
  "sample_read a enc =
     (if a = Path_of (U ''/proj/docs/README.md'') then Some (Content (U ''# Title''))
      else if a = Path_of (U ''/proj/docs/data.json'') then Some (Content (U ''[1, 2]''))
      else if a = Path_of (U ''/proj/docs/legacy.txt'')
        then Some (case enc of UTF8 \<Rightarrow> DecodeError
                   | Latin1 \<Rightarrow> Content (replicate 100 97 @ [233]))
      else if a = Path_of (U ''/proj/docs/raw.bin'')
        then Some (case enc of UTF8 \<Rightarrow> DecodeError | Latin1 \<Rightarrow> Content [137, 80, 78, 71])
      else None)"

definition sample_env :: env where
  "sample_env =
     \<lparr> os_getcwd = (\<lambda>c. Inr c),
       os_chdir = (\<lambda>c t. if t \<in> set [U ''/proj'', U ''/work''] then Inr t
                          else Inl (errno ''[Errno 2] No such file or directory''
                                      (Path_of t))),
       path_exists = sample_test (\<lambda>a. a \<in> set (sample_dirs @ sample_files)),
       path_is_dir = sample_test (\<lambda>a. a \<in> set sample_dirs),
       path_is_file = sample_test (\<lambda>a. a \<in> set sample_files),
       path_rglob = (\<lambda>c p. (sample_rglob c p, None)),
       path_stat_size = (\<lambda>c p.
          if absolute c p = Path_of (U ''/proj/docs/raw.bin'') then Inr 2000000
          else if absolute c p \<in> set (sample_dirs @ sample_files) then Inr 64
          else Inl (errno ''[Errno 2] No such file or directory'' p)),
       open_read = (\<lambda>c p enc.
          case sample_read (absolute c p) enc of
            Some outcome \<Rightarrow> outcome
          | None \<Rightarrow> ReadError (errno ''[Errno 2] No such file or directory'' p)),
       path_mkdir = (\<lambda>c p. if take 2 (absolute c p) = Path_of (U ''/sealed'')
                           then Some (errno ''[Errno 13] Permission denied''
                                        (Path_of (U ''/sealed'')))
                           else None),
       open_write = (\<lambda>c p t. None),
       prompt = (\<lambda>p ms. Inr [U '' A summary. '']),
       pathlib = Through_3_11 \<rparr>"

section \<open>Facts about strings\<close>

lemma split_on_nonempty: "split_on sep s \<noteq> []"
  by (induction s) (auto split: list.splits)

lemma split_on_no_sep: "sep \<notin> set s \<Longrightarrow> split_on sep s = [s]"
  by (induction s) auto

lemma split_on_sep_length: "sep \<in> set s \<Longrightarrow> 2 \<le> length (split_on sep s)"
proof (induction s)
  case Nil
  then show ?case by simp
next
  case (Cons c cs)
  show ?case
  proof (cases "c = sep")
    case True
    with split_on_nonempty [of sep cs] show ?thesis
      by (cases "split_on sep cs") auto
  next
    case False
    with Cons show ?thesis
      by (auto split: list.splits)
  qed
qed

lemma rfind_None_iff: "rfind ch s = None \<longleftrightarrow> ch \<notin> set s"
  by (induction s) (auto split: option.splits)

lemma last_split_on_Cons:
  "ch \<in> set cs \<Longrightarrow> last (split_on ch (c # cs)) = last (split_on ch cs)"
  using split_on_sep_length [of ch cs] split_on_nonempty [of ch cs]
  by (cases "split_on ch cs") (auto split: list.splits)

lemma rfind_drop_last:
  "rfind ch s = Some i \<Longrightarrow> drop i s = ch # last (split_on ch s)"
proof (induction s arbitrary: i)
  case Nil
  then show ?case by simp
next
  case (Cons c cs)
  show ?case
  proof (cases "rfind ch cs")
    case None
    then have "ch \<notin> set cs" by (simp add: rfind_None_iff)
    with Cons.prems None show ?thesis
      by (auto simp: split_on_no_sep split: if_splits)
  next
    case (Some j)
    then have mem: "ch \<in> set cs" using rfind_None_iff [of ch cs] by auto
    from Cons.prems Some have i: "i = Suc j" by simp
    from Cons.IH [OF Some] have "drop j cs = ch # last (split_on ch cs)" .
    with i mem show ?thesis
      by (simp add: last_split_on_Cons del: split_on.simps)
  qed
qed

lemma lower_char_dot: "lower_char c = 46 \<longleftrightarrow> c = 46"
  by (auto simp: lower_char_def)

lemma rfind_lower: "rfind 46 (lower s) = rfind 46 s"
  by (induction s) (auto simp: lower_def lower_char_dot split: option.splits)

lemma dot_in_lower: "46 \<in> set (lower s) \<longleftrightarrow> 46 \<in> set s"
  by (induction s) (auto simp: lower_def lower_char_dot)

lemma startswith_star: "startswith pat (U ''*'') \<longleftrightarrow> (\<exists>rest. pat = 42 # rest)"
  by (cases pat) (auto simp: startswith_def U_def)

lemma endswith_iff: "endswith s suf \<longleftrightarrow> (\<exists>pre. s = pre @ suf)"
proof
  assume "endswith s suf"
  then have "s = take (length s - length suf) s @ suf"
    by (metis append_take_drop_id endswith_def)
  then show "\<exists>pre. s = pre @ suf" ..
next
  assume "\<exists>pre. s = pre @ suf"
  then show "endswith s suf" by (auto simp: endswith_def)
qed

section \<open>Facts about paths\<close>

text \<open>Every path made from a string is well formed, and on well-formed paths the key of
  either version of the library is injective.\<close>

lemma split_on_append_sep:
  "sep \<notin> set x \<Longrightarrow> split_on sep (x @ sep # ys) = x # split_on sep ys"
  using split_on_nonempty [of sep ys]
  by (induction x) (auto split: list.splits)

lemma split_on_join:
  "xs \<noteq> [] \<Longrightarrow> \<forall>c \<in> set xs. sep \<notin> set c \<Longrightarrow> split_on sep (join [sep] xs) = xs"
proof (induction "[sep]" xs rule: join.induct)
  case 1
  then show ?case by simp
next
  case (2 x)
  then show ?case by (simp add: split_on_no_sep)
next
  case (3 x y ys)
  then show ?case by (simp add: split_on_append_sep)
qed

lemma join_nonempty:
  "xs \<noteq> [] \<Longrightarrow> \<forall>c \<in> set xs. c \<noteq> [] \<Longrightarrow> join sep xs \<noteq> []"
  by (induction sep xs rule: join.induct) auto

lemma split_on_components: "\<forall>c \<in> set (split_on sep s). sep \<notin> set c"
  by (induction s) (auto split: list.splits)

lemma startswith_slash: "startswith a (U ''/'') \<Longrightarrow> 47 \<in> set a"
  by (cases a) (auto simp: startswith_def U_def)

lemma components_relative:
  "list_all (\<lambda>c. c \<noteq> [] \<and> c \<noteq> U ''.'' \<and> 47 \<notin> set c) cs \<Longrightarrow> \<not> is_absolute cs"
  using startswith_slash by (cases cs) (auto simp: is_absolute_def)

lemma well_formed_Path_of: "well_formed (Path_of s)"
proof -
  let ?cs = "filter (\<lambda>x. x \<noteq> [] \<and> x \<noteq> U ''.'') (split_on 47 s)"
  have cs: "list_all (\<lambda>c. c \<noteq> [] \<and> c \<noteq> U ''.'' \<and> 47 \<notin> set c) ?cs"
    using split_on_components [of 47 s] by (auto simp: list_all_iff)
  have a: "is_absolute (U ''/'' # ?cs)" "is_absolute (U ''//'' # ?cs)"
    by (simp_all add: is_absolute_def startswith_def U_def)
  show ?thesis
    using cs components_relative [OF cs] a
    by (simp add: Path_of_def well_formed_def Let_def del: filter.simps filter_filter)
qed

text \<open>The key of a well-formed path, by the kind of the path.\<close>

lemma key_relative:
  assumes "well_formed p" "\<not> is_absolute p" "p \<noteq> []"
  shows "path_key From_3_12 p = p"
proof -
  from assms have c: "\<forall>c \<in> set p. 47 \<notin> set c" "\<forall>c \<in> set p. c \<noteq> []"
    by (auto simp: well_formed_def list_all_iff)
  with assms(3) have "join (U ''/'') p \<noteq> []" by (intro join_nonempty) auto
  moreover have "split_on 47 (join [47] p) = p" using assms(3) c by (intro split_on_join) auto
  ultimately show ?thesis using assms(2) by (simp add: path_str_def U_def)
qed

lemma key_absolute:
  assumes "well_formed p" "is_absolute p"
  shows "path_key From_3_12 p =
           (if hd p = U ''/'' then [[]] else [[], []]) @ (if tl p = [] then [[]] else tl p)"
proof -
  from assms have c: "\<forall>c \<in> set (tl p). 47 \<notin> set c" and h: "hd p = U ''/'' \<or> hd p = U ''//''"
    by (auto simp: well_formed_def list_all_iff)
  have s: "split_on 47 (join [47] (tl p)) = (if tl p = [] then [[]] else tl p)"
    using c by (auto simp: split_on_join)
  from h show ?thesis
  proof
    assume "hd p = U ''/''"
    then show ?thesis using assms(2) s by (simp add: path_str_def U_def)
  next
    assume "hd p = U ''//''"
    then show ?thesis using assms(2) s by (simp add: path_str_def U_def)
  qed
qed

lemma path_key_injective:
  assumes p: "well_formed p" and q: "well_formed q"
    and k: "path_key v p = path_key v q"
  shows "p = q"
proof (cases v)
  case Through_3_11
  with k show ?thesis by (simp add: parts_def)
next
  case From_3_12
  with k have k': "path_key From_3_12 p = path_key From_3_12 q" by simp
  have empty: "split_on 47 (path_str []) = [U ''.'']"
    by (simp add: path_str_def is_absolute_def U_def)
  have ne: "\<forall>c \<in> set (tl r). c \<noteq> []" if "well_formed r" "is_absolute r" for r
    using that by (auto simp: well_formed_def list_all_iff)
  have rel: "\<forall>c \<in> set r. c \<noteq> [] \<and> c \<noteq> U ''.''" if "well_formed r" "\<not> is_absolute r" for r
    using that by (auto simp: well_formed_def list_all_iff)
  have abs_shape: "r = hd r # tl r" if "is_absolute r" for r
    using that by (cases r) (auto simp: is_absolute_def)
  show ?thesis
  proof (cases "is_absolute p")
    case pa: True
    show ?thesis
    proof (cases "is_absolute q")
      case qa: True
      from p pa q qa have h: "hd p = U ''/'' \<or> hd p = U ''//''" "hd q = U ''/'' \<or> hd q = U ''//''"
        by (auto simp: well_formed_def)
      have "hd p = hd q \<and> tl p = tl q"
        using k' h ne [OF p pa] ne [OF q qa]
        unfolding key_absolute [OF p pa] key_absolute [OF q qa]
        by (cases "tl p"; cases "tl q") (auto simp: U_def split: if_splits)
      with abs_shape [OF pa] abs_shape [OF qa] show ?thesis by metis
    next
      case qr: False
      have False
      proof (cases "q = []")
        case True
        with k' show False
          unfolding key_absolute [OF p pa] by (auto simp: empty U_def split: if_splits)
      next
        case False
        with k' rel [OF q qr] show False
          unfolding key_absolute [OF p pa] key_relative [OF q qr False]
          by (cases q) (auto split: if_splits)
      qed
      then show ?thesis ..
    qed
  next
    case pr: False
    show ?thesis
    proof (cases "is_absolute q")
      case qa: True
      have False
      proof (cases "p = []")
        case True
        with k' show False
          unfolding key_absolute [OF q qa] by (auto simp: empty U_def split: if_splits)
      next
        case False
        with k' rel [OF p pr] show False
          unfolding key_absolute [OF q qa] key_relative [OF p pr False]
          by (cases p) (auto split: if_splits)
      qed
      then show ?thesis ..
    next
      case qr: False
      show ?thesis
      proof (cases "p = []")
        case pe: True
        show ?thesis
        proof (cases "q = []")
          case True
          with pe show ?thesis by simp
        next
          case False
          with k' pe rel [OF q qr] show ?thesis
            unfolding key_relative [OF q qr False] by (auto simp: empty)
        qed
      next
        case pn: False
        show ?thesis
        proof (cases "q = []")
          case True
          with k' rel [OF p pr] pn show ?thesis
            unfolding key_relative [OF p pr pn] by (auto simp: empty)
        next
          case False
          from k' show ?thesis
            unfolding key_relative [OF p pr pn] key_relative [OF q qr False] .
        qed
      qed
    qed
  qed
qed

section \<open>Language resolution\<close>

lemma scan_extensions_None:
  "scan_extensions ps = None \<longleftrightarrow> (\<forall>part \<in> set ps. map_of LANGUAGE_MAP (U ''.'' @ part) = None)"
  by (induction ps) (auto split: option.splits)

lemma scan_extensions_Some:
  "map_of LANGUAGE_MAP (U ''.'' @ part) = Some v \<Longrightarrow>
   \<forall>q \<in> set before. map_of LANGUAGE_MAP (U ''.'' @ q) = None \<Longrightarrow>
   scan_extensions (before @ part # after) = Some v"
  by (induction before) auto

lemma language_of_empty: "map_of LANGUAGE_MAP [] = None"
  by code_simp

lemma last_in_tl: "2 \<le> length xs \<Longrightarrow> last xs \<in> set (tl xs)"
  by (cases xs) auto

text \<open>When the loop finds nothing, the fallback on \<open>file_path.suffix\<close> finds nothing
  either: the suffix is empty or it is the last part, which the loop has tried.\<close>

lemma fallback_text:
  assumes dot: "46 \<in> set (lower (name p))"
    and none: "scan_extensions (rev (tl (split_on 46 (lower (name p))))) = None"
  shows "map_of LANGUAGE_MAP (lower (suffix p)) = None"
proof (cases "rfind 46 (name p)")
  case None
  then show ?thesis by (simp add: suffix_def lower_def language_of_empty)
next
  case (Some i)
  show ?thesis
  proof (cases "0 < i \<and> i < length (name p) - 1")
    case False
    with Some show ?thesis by (auto simp: suffix_def lower_def language_of_empty)
  next
    case True
    have "rfind 46 (lower (name p)) = Some i" using Some by (simp add: rfind_lower)
    then have d: "drop i (lower (name p)) = 46 # last (split_on 46 (lower (name p)))"
      by (rule rfind_drop_last)
    have "lower (suffix p) = drop i (lower (name p))"
      using Some True by (simp add: suffix_def lower_def drop_map)
    with d have s: "lower (suffix p) = U ''.'' @ last (split_on 46 (lower (name p)))"
      by (simp add: U_def)
    have "last (split_on 46 (lower (name p))) \<in> set (tl (split_on 46 (lower (name p))))"
      using dot by (intro last_in_tl split_on_sep_length)
    with none s show ?thesis by (simp add: scan_extensions_None)
  qed
qed

text \<open>
  Claim C4. For a file name that contains a dot, the lower-cased name is split on the dot
  into a base name and its suffixes (a letter \<open>K\<close> written as the Kelvin sign counts as
  \<open>k\<close>, as it does for Python). If no suffix (with its dot) is a key of the extension
  table, the language is \<open>text\<close>; otherwise it is the table's language for the rightmost
  suffix that is a key. \<open>config.yaml.example\<close> gives \<open>yaml\<close>, \<open>app.js.backup\<close> gives
  \<open>javascript\<close>, \<open>Dockerfile\<close> gives \<open>dockerfile\<close> and \<open>Makefile\<close> gives \<open>makefile\<close>.
\<close>

theorem get_file_language_rightmost_known_suffix:
  "(46 \<in> set (name p) \<longrightarrow>
      (\<forall>base sufs. split_on 46 (lower (name p)) = base # sufs \<longrightarrow>
         ((\<forall>s \<in> set sufs. map_of LANGUAGE_MAP (U ''.'' @ s) = None) \<longrightarrow>
             get_file_language p = U ''text'') \<and>
         (\<forall>before s after v.
             sufs = before @ s # after \<and>
             map_of LANGUAGE_MAP (U ''.'' @ s) = Some v \<and>
             (\<forall>t \<in> set after. map_of LANGUAGE_MAP (U ''.'' @ t) = None) \<longrightarrow>
             get_file_language p = v)))
   \<and> get_file_language (Path_of (U ''config.yaml.example'')) = U ''yaml''
   \<and> get_file_language (Path_of (U ''app.js.backup'')) = U ''javascript''
   \<and> get_file_language (Path_of (U ''Dockerfile'')) = U ''dockerfile''
   \<and> get_file_language (Path_of (U ''Makefile'')) = U ''makefile''"
proof -
  have general: "get_file_language p = U ''text''"
    if dot: "46 \<in> set (name p)" and sp: "split_on 46 (lower (name p)) = base # sufs"
      and no: "\<forall>s \<in> set sufs. map_of LANGUAGE_MAP (U ''.'' @ s) = None"
    for base sufs
  proof -
    have dot': "46 \<in> set (lower (name p))" using dot by (simp add: dot_in_lower)
    have none: "scan_extensions (rev (tl (split_on 46 (lower (name p))))) = None"
      using no by (simp add: sp scan_extensions_None)
    with fallback_text [OF dot' none] dot' show ?thesis
      by (simp add: get_file_language_def Let_def)
  qed
  have found: "get_file_language p = v"
    if dot: "46 \<in> set (name p)" and sp: "split_on 46 (lower (name p)) = base # sufs"
      and a: "sufs = before @ s # after" "map_of LANGUAGE_MAP (U ''.'' @ s) = Some v"
        "\<forall>t \<in> set after. map_of LANGUAGE_MAP (U ''.'' @ t) = None"
    for base sufs before s after v
  proof -
    have dot': "46 \<in> set (lower (name p))" using dot by (simp add: dot_in_lower)
    have "scan_extensions (rev after @ s # rev before) = Some v"
      using a by (intro scan_extensions_Some) auto
    with a dot' show ?thesis
      by (simp add: get_file_language_def Let_def sp)
  qed
  have e1: "get_file_language (Path_of (U ''config.yaml.example'')) = U ''yaml''"
    by code_simp
  have e2: "get_file_language (Path_of (U ''app.js.backup'')) = U ''javascript''"
    by code_simp
  have e3: "get_file_language (Path_of (U ''Dockerfile'')) = U ''dockerfile''"
    by code_simp
  have e4: "get_file_language (Path_of (U ''Makefile'')) = U ''makefile''"
    by code_simp
  from general found e1 e2 e3 e4 show ?thesis by blast
qed

theorem get_file_language_rightmost_known_suffix_witness:
  "46 \<in> set (name (Path_of (U ''notes.MD.bak.orig'')))
   \<and> split_on 46 (lower (name (Path_of (U ''notes.MD.bak.orig''))))
       = U ''notes'' # [U ''md'', U ''bak'', U ''orig'']
   \<and> map_of LANGUAGE_MAP (U ''.'' @ U ''md'') = Some (U ''markdown'')
   \<and> map_of LANGUAGE_MAP (U ''.'' @ U ''bak'') = None
   \<and> map_of LANGUAGE_MAP (U ''.'' @ U ''orig'') = None
   \<and> get_file_language (Path_of (U ''notes.MD.bak.orig'')) = U ''markdown''
   \<and> 46 \<in> set (name (Path_of (U ''unknown.xyz.example'')))
   \<and> split_on 46 (lower (name (Path_of (U ''unknown.xyz.example''))))
       = U ''unknown'' # [U ''xyz'', U ''example'']
   \<and> map_of LANGUAGE_MAP (U ''.'' @ U ''xyz'') = None
   \<and> map_of LANGUAGE_MAP (U ''.'' @ U ''example'') = None
   \<and> get_file_language (Path_of (U ''unknown.xyz.example'')) = U ''text''
   \<and> 46 \<in> set (name (Path_of (U ''query.'' @ [8490] @ U ''T'')))
   \<and> split_on 46 (lower (name (Path_of (U ''query.'' @ [8490] @ U ''T''))))
       = U ''query'' # [U ''kt'']
   \<and> map_of LANGUAGE_MAP (U ''.'' @ U ''kt'') = Some (U ''kotlin'')
   \<and> get_file_language (Path_of (U ''query.'' @ [8490] @ U ''T'')) = U ''kotlin''"
proof -
  let ?p = "Path_of (U ''notes.MD.bak.orig'')"
  let ?q = "Path_of (U ''unknown.xyz.example'')"
  let ?k = "Path_of (U ''query.'' @ [8490] @ U ''T'')"
  have k1: "46 \<in> set (name ?k)" by code_simp
  have k2: "split_on 46 (lower (name ?k)) = U ''query'' # [U ''kt'']" by code_simp
  have k3: "map_of LANGUAGE_MAP (U ''.'' @ U ''kt'') = Some (U ''kotlin'')" by code_simp
  have k4: "[U ''kt''] = [] @ U ''kt'' # []" by simp
  have k5: "\<forall>t \<in> set ([] :: pystr list). map_of LANGUAGE_MAP (U ''.'' @ t) = None" by simp
  have rk: "get_file_language ?k = U ''kotlin''"
    using get_file_language_rightmost_known_suffix [of ?k] k1 k2 k3 k4 k5 by blast
  have p1: "46 \<in> set (name ?p)" by code_simp
  have p2: "split_on 46 (lower (name ?p)) = U ''notes'' # [U ''md'', U ''bak'', U ''orig'']"
    by code_simp
  have p3: "map_of LANGUAGE_MAP (U ''.'' @ U ''md'') = Some (U ''markdown'')" by code_simp
  have p4: "\<forall>t \<in> set [U ''bak'', U ''orig'']. map_of LANGUAGE_MAP (U ''.'' @ t) = None"
    by code_simp
  have p5: "[U ''md'', U ''bak'', U ''orig''] = [] @ U ''md'' # [U ''bak'', U ''orig'']"
    by simp
  have q1: "46 \<in> set (name ?q)" by code_simp
  have q2: "split_on 46 (lower (name ?q)) = U ''unknown'' # [U ''xyz'', U ''example'']"
    by code_simp
  have q3: "\<forall>s \<in> set [U ''xyz'', U ''example'']. map_of LANGUAGE_MAP (U ''.'' @ s) = None"
    by code_simp
  have rp: "get_file_language ?p = U ''markdown''"
    using get_file_language_rightmost_known_suffix [of ?p] p1 p2 p3 p4 p5 by blast
  have rq: "get_file_language ?q = U ''text''"
    using get_file_language_rightmost_known_suffix [of ?q] q1 q2 q3 by blast
  from p4 have p4': "map_of LANGUAGE_MAP (U ''.'' @ U ''bak'') = None"
    "map_of LANGUAGE_MAP (U ''.'' @ U ''orig'') = None" by simp_all
  from q3 have q3': "map_of LANGUAGE_MAP (U ''.'' @ U ''xyz'') = None"
    "map_of LANGUAGE_MAP (U ''.'' @ U ''example'') = None" by simp_all
  from p1 p2 p3 p4' rp q1 q2 q3' rq k1 k2 k3 rk show ?thesis by blast
qed

section \<open>Ignore patterns\<close>

text \<open>One pattern against one path: the three tests of the loop body.\<close>

lemma should_ignore_file_exists:
  "should_ignore_file p pats \<longleftrightarrow>
     (\<exists>pat \<in> set pats.
        pat = name p
        \<or> (startswith pat (U ''*'') \<and> endswith (name p) (drop 1 pat))
        \<or> pat \<in> set (parts p))"
  by (induction pats) (auto simp: Let_def)

text \<open>
  Claim C5. \<open>should_ignore_file\<close> answers true exactly when some pattern equals the base
  name of the path, or is a star followed by a string that the base name ends with, or
  equals one of the parts of the path; two pattern lists with the same elements, in any
  order, give the same answer.
\<close>

theorem should_ignore_file_any_pattern:
  "(should_ignore_file p pats \<longleftrightarrow>
      (\<exists>pat \<in> set pats.
         pat = name p
         \<or> (\<exists>rest pre. pat = 42 # rest \<and> name p = pre @ rest)
         \<or> pat \<in> set (parts p)))
   \<and> (\<forall>pats'. set pats' = set pats \<longrightarrow>
         should_ignore_file p pats' = should_ignore_file p pats)"
proof -
  have star: "(startswith pat (U ''*'') \<and> endswith (name p) (drop 1 pat))
      \<longleftrightarrow> (\<exists>rest pre. pat = 42 # rest \<and> name p = pre @ rest)" for pat
    by (auto simp: startswith_star endswith_iff)
  show ?thesis
    unfolding should_ignore_file_exists star by auto
qed

theorem should_ignore_file_any_pattern_witness:
  "set [U ''*.pyc'', U ''.git''] = set [U ''.git'', U ''*.pyc'', U ''.git'']
   \<and> should_ignore_file (Path_of (U ''src/.git/config'')) [U ''*.pyc'', U ''.git'']
   \<and> should_ignore_file (Path_of (U ''src/.git/config'')) [U ''.git'', U ''*.pyc'', U ''.git'']
   \<and> \<not> should_ignore_file (Path_of (U ''src/main.py'')) [U ''.git'', U ''*.pyc'', U ''.git'']"
proof -
  have s: "set [U ''*.pyc'', U ''.git''] = set [U ''.git'', U ''*.pyc'', U ''.git'']"
    by auto
  have a: "should_ignore_file (Path_of (U ''src/.git/config'')) [U ''.git'', U ''*.pyc'', U ''.git'']"
    by code_simp
  have b: "\<not> should_ignore_file (Path_of (U ''src/main.py'')) [U ''.git'', U ''*.pyc'', U ''.git'']"
    by code_simp
  from should_ignore_file_any_pattern
         [of "Path_of (U ''src/.git/config'')" "[U ''.git'', U ''*.pyc'', U ''.git'']"] s a
  have "should_ignore_file (Path_of (U ''src/.git/config'')) [U ''*.pyc'', U ''.git'']"
    by blast
  with s a b show ?thesis by blast
qed

section \<open>Collecting files\<close>

lemma fst_and_then:
  "fst (and_then a b) =
     (case fst a of
        Inl err \<Rightarrow> Inl err
      | Inr found \<Rightarrow> (case fst b of Inl err \<Rightarrow> Inl err | Inr later \<Rightarrow> Inr (found @ later)))"
  by (cases a; cases b; cases "fst a"; cases "fst b") auto

lemma snd_and_then:
  "snd (and_then a b) = (if isl (fst a) then snd a else snd a @ snd b)"
  by (cases a; cases b; cases "fst a"; cases "fst b") auto

lemma and_then_Inr_iff:
  "fst (and_then a b) = Inr r \<longleftrightarrow> (\<exists>x y. fst a = Inr x \<and> fst b = Inr y \<and> r = x @ y)"
  by (auto simp: fst_and_then split: sum.splits)

lemma fst_check_size:
  "fst (check_size e cwd fp) =
     (if (case path_stat_size e cwd fp of Inr n \<Rightarrow> n \<le> 1024 * 1024 | Inl err \<Rightarrow> False)
      then [fp] else [])"
  by (auto simp: check_size_def split: sum.splits)

lemma fst_walk_entry:
  "fst (walk_entry e cwd pats fp) =
     (case path_is_file e cwd fp of
        Inl err \<Rightarrow> Inl err
      | Inr b \<Rightarrow> Inr (if acceptable e cwd pats fp then [fp] else []))"
  by (simp add: walk_entry_def acceptable_def fst_check_size case_prod_beta split: sum.splits)

text \<open>When the walk over the entries of a directory returns, it returns the acceptable
  entries, in the order of the listing.\<close>

lemma fst_collect_walk_Inr:
  "fst (collect_walk e cwd pats fps) = Inr r \<Longrightarrow> r = filter (acceptable e cwd pats) fps"
proof (induction fps arbitrary: r)
  case Nil
  then show ?case by simp
next
  case (Cons fp fps)
  from Cons.prems obtain x y where x: "fst (walk_entry e cwd pats fp) = Inr x"
    and y: "fst (collect_walk e cwd pats fps) = Inr y" and r: "r = x @ y"
    by (auto simp: and_then_Inr_iff)
  from x have "x = (if acceptable e cwd pats fp then [fp] else [])"
    by (auto simp: fst_walk_entry split: sum.splits)
  with Cons.IH [OF y] r show ?case by simp
qed

lemma collect_walk_answers:
  "list_all (\<lambda>fp. \<not> isl (path_is_file e cwd fp)) fps \<Longrightarrow>
   \<exists>r. fst (collect_walk e cwd pats fps) = Inr r"
proof (induction fps)
  case Nil
  then show ?case by simp
next
  case (Cons fp fps)
  then obtain y where y: "fst (collect_walk e cwd pats fps) = Inr y" by auto
  from Cons.prems have "\<not> isl (path_is_file e cwd fp)" by simp
  then obtain x where "fst (walk_entry e cwd pats fp) = Inr x"
    by (cases "path_is_file e cwd fp") (auto simp: fst_walk_entry)
  with y show ?case by (auto simp: and_then_Inr_iff)
qed

lemma fst_collect_directory:
  "fst (collect_directory e cwd pats d) =
     (case path_exists e cwd (Path_of d) of
        Inl err \<Rightarrow> Inl err
      | Inr dir_exists \<Rightarrow>
          (if \<not> dir_exists then Inr []
           else (case path_is_dir e cwd (Path_of d) of
                   Inl err \<Rightarrow> Inl err
                 | Inr is_dir \<Rightarrow>
                     (if \<not> is_dir then Inr []
                      else (case fst (collect_walk e cwd pats
                                        (fst (path_rglob e cwd (Path_of d)))) of
                              Inl err \<Rightarrow> Inl err
                            | Inr fs \<Rightarrow>
                                (case snd (path_rglob e cwd (Path_of d)) of
                                   None \<Rightarrow> Inr fs
                                 | Some err \<Rightarrow> Inl err))))))"
  by (simp add: collect_directory_def Let_def case_prod_beta fst_and_then
        split: sum.splits option.splits)

lemma fst_collect_directory_Inr:
  assumes "fst (collect_directory e cwd pats d) = Inr r"
  shows "r = (if usable_directory e cwd d
              then filter (acceptable e cwd pats) (fst (path_rglob e cwd (Path_of d)))
              else [])"
  using assms fst_collect_walk_Inr [of e cwd pats "fst (path_rglob e cwd (Path_of d))"]
  by (auto simp: fst_collect_directory usable_directory_def
        split: sum.splits if_splits option.splits)

lemma fst_collect_directories_Inr:
  "fst (collect_directories e cwd pats ds) = Inr r \<Longrightarrow> set r = spec_walked e cwd pats ds"
proof (induction ds arbitrary: r)
  case Nil
  then show ?case by (simp add: spec_walked_def)
next
  case (Cons d ds)
  from Cons.prems obtain x y where x: "fst (collect_directory e cwd pats d) = Inr x"
    and y: "fst (collect_directories e cwd pats ds) = Inr y" and r: "r = x @ y"
    by (auto simp: and_then_Inr_iff)
  have step: "spec_walked e cwd pats (d # ds) =
      (if usable_directory e cwd d
       then {fp \<in> set (fst (path_rglob e cwd (Path_of d))). acceptable e cwd pats fp} else {})
      \<union> spec_walked e cwd pats ds"
    by (auto simp: spec_walked_def)
  show ?case
    unfolding step r using fst_collect_directory_Inr [OF x] Cons.IH [OF y] by auto
qed

lemma fst_collect_file:
  "fst (collect_file e cwd pats f) =
     (case path_exists e cwd (Path_of f) of
        Inl err \<Rightarrow> Inl err
      | Inr file_exists \<Rightarrow>
          (if \<not> file_exists then Inr []
           else (case path_is_file e cwd (Path_of f) of
                   Inl err \<Rightarrow> Inl err
                 | Inr is_file \<Rightarrow>
                     Inr (if acceptable e cwd pats (Path_of f) then [Path_of f] else []))))"
  by (simp add: collect_file_def Let_def case_prod_beta acceptable_def fst_check_size
        split: sum.splits)

lemma fst_collect_listed_Inr:
  "fst (collect_listed e cwd pats fs) = Inr r \<Longrightarrow> set r = spec_listed e cwd pats fs"
proof (induction fs arbitrary: r)
  case Nil
  then show ?case by (simp add: spec_listed_def)
next
  case (Cons f fs)
  from Cons.prems obtain x y where x: "fst (collect_file e cwd pats f) = Inr x"
    and y: "fst (collect_listed e cwd pats fs) = Inr y" and r: "r = x @ y"
    by (auto simp: and_then_Inr_iff)
  have step: "spec_listed e cwd pats (f # fs) =
      (if path_exists e cwd (Path_of f) = Inr True \<and> acceptable e cwd pats (Path_of f)
       then {Path_of f} else {})
      \<union> spec_listed e cwd pats fs"
    by (auto simp: spec_listed_def)
  from x have "set x =
      (if path_exists e cwd (Path_of f) = Inr True \<and> acceptable e cwd pats (Path_of f)
       then {Path_of f} else {})"
    by (auto simp: fst_collect_file acceptable_def split: sum.splits if_splits)
  then show ?case
    unfolding step r using Cons.IH [OF y] by auto
qed

lemma the_list_falsy: "\<not> truthy xs \<Longrightarrow> the_list xs = []"
  by (cases xs) auto

text \<open>A list that is absent or empty is skipped by its \<open>if\<close>, which is what its loop does
  with the empty list.\<close>

lemma collect_files_eq:
  "collect_files e cwd directories files ignore_patterns =
     (case and_then
             (collect_directories e cwd (patterns_of ignore_patterns) (the_list directories))
             (collect_listed e cwd (patterns_of ignore_patterns) (the_list files)) of
        (Inl err, ev) \<Rightarrow> (Inl err, ev)
      | (Inr collected_files, ev) \<Rightarrow>
          (Inr (sort_key (path_key (pathlib e)) (remdups collected_files)), ev))"
proof -
  have w: "(if truthy directories
            then collect_directories e cwd (patterns_of ignore_patterns) (the_list directories)
            else (Inr [], []))
           = collect_directories e cwd (patterns_of ignore_patterns) (the_list directories)"
    by (simp add: the_list_falsy)
  have l: "(if truthy files
            then collect_listed e cwd (patterns_of ignore_patterns) (the_list files)
            else (Inr [], []))
           = collect_listed e cwd (patterns_of ignore_patterns) (the_list files)"
    by (simp add: the_list_falsy)
  show ?thesis
    unfolding collect_files_def Let_def patterns_of_def [symmetric] w l ..
qed

lemma fst_collect_files:
  "fst (collect_files e cwd directories files ignore_patterns) =
     (case fst (collect_directories e cwd (patterns_of ignore_patterns)
                  (the_list directories)) of
        Inl err \<Rightarrow> Inl err
      | Inr w \<Rightarrow>
          (case fst (collect_listed e cwd (patterns_of ignore_patterns) (the_list files)) of
             Inl err \<Rightarrow> Inl err
           | Inr l \<Rightarrow> Inr (sort_key (path_key (pathlib e)) (remdups (w @ l)))))"
proof -
  let ?a = "and_then
              (collect_directories e cwd (patterns_of ignore_patterns) (the_list directories))
              (collect_listed e cwd (patterns_of ignore_patterns) (the_list files))"
  have "fst (collect_files e cwd directories files ignore_patterns) =
      (case fst ?a of Inl err \<Rightarrow> Inl err
       | Inr c \<Rightarrow> Inr (sort_key (path_key (pathlib e)) (remdups c)))"
    unfolding collect_files_eq by (cases ?a; cases "fst ?a") auto
  then show ?thesis
    by (simp add: fst_and_then split: sum.splits)
qed

lemma snd_collect_files:
  "snd (collect_files e cwd directories files ignore_patterns) =
     snd (and_then
            (collect_directories e cwd (patterns_of ignore_patterns) (the_list directories))
            (collect_listed e cwd (patterns_of ignore_patterns) (the_list files)))"
  unfolding collect_files_eq by (simp split: prod.splits sum.splits)

text \<open>When no test raises, neither loop does.\<close>

lemma collect_directory_answers:
  assumes "\<not> isl (path_exists e cwd (Path_of d))" "\<not> isl (path_is_dir e cwd (Path_of d))"
    "snd (path_rglob e cwd (Path_of d)) = None"
    "list_all (\<lambda>fp. \<not> isl (path_is_file e cwd fp)) (fst (path_rglob e cwd (Path_of d)))"
  shows "\<exists>r. fst (collect_directory e cwd pats d) = Inr r"
  using assms collect_walk_answers [OF assms(4), of pats]
  by (auto simp: fst_collect_directory split: sum.splits)

lemma collect_directories_answers:
  "list_all (\<lambda>d. \<not> isl (path_exists e cwd (Path_of d)) \<and>
                    \<not> isl (path_is_dir e cwd (Path_of d)) \<and>
                    snd (path_rglob e cwd (Path_of d)) = None \<and>
                    list_all (\<lambda>fp. \<not> isl (path_is_file e cwd fp))
                      (fst (path_rglob e cwd (Path_of d)))) ds \<Longrightarrow>
   \<exists>r. fst (collect_directories e cwd pats ds) = Inr r"
proof (induction ds)
  case Nil
  then show ?case by simp
next
  case (Cons d ds)
  then obtain y where y: "fst (collect_directories e cwd pats ds) = Inr y" by auto
  from Cons.prems obtain x where "fst (collect_directory e cwd pats d) = Inr x"
    using collect_directory_answers [of e cwd d pats] by auto
  with y show ?case by (auto simp: and_then_Inr_iff)
qed

lemma collect_listed_answers:
  "list_all (\<lambda>f. \<not> isl (path_exists e cwd (Path_of f)) \<and>
                  \<not> isl (path_is_file e cwd (Path_of f))) fs \<Longrightarrow>
   \<exists>r. fst (collect_listed e cwd pats fs) = Inr r"
proof (induction fs)
  case Nil
  then show ?case by simp
next
  case (Cons f fs)
  then obtain y where y: "fst (collect_listed e cwd pats fs) = Inr y" by auto
  from Cons.prems have "\<exists>x. fst (collect_file e cwd pats f) = Inr x"
    by (cases "path_exists e cwd (Path_of f)"; cases "path_is_file e cwd (Path_of f)")
       (simp_all add: fst_collect_file)
  then obtain x where "fst (collect_file e cwd pats f) = Inr x" ..
  with y show ?case by (auto simp: and_then_Inr_iff)
qed

lemma count_list_distinct: "distinct xs \<Longrightarrow> x \<in> set xs \<Longrightarrow> count_list xs x = 1"
  by (induction xs) auto

text \<open>Unfolding sets for evaluating the program in the sample environment.\<close>

lemmas path_eval =
  Path_of_def U_def startswith_def endswith_def name_def parts_def is_absolute_def Let_def

lemmas env_eval =
  sample_env_def sample_files_def sample_dirs_def sample_test_def sample_rglob_def
  sample_read_def name_too_long_def absolute_def errno_def check_size_def

lemmas collect_eval =
  collect_files_def collect_directory_def collect_file_def walk_entry_def
  DEFAULT_IGNORE_PATTERNS_def

text \<open>
  The two orders of paths differ where a root meets a name that starts below the
  separator: the parts \<open>/\<close>, \<open>srv\<close>, \<open>notes.txt\<close> come after \<open>.github\<close>, \<open>x.yml\<close>, the split
  string with its empty first element comes before.
\<close>

lemma path_key_by_version:
  "path_key Through_3_11 (Path_of (U ''.github/x.yml''))
     < path_key Through_3_11 (Path_of (U ''/srv/notes.txt''))
   \<and> path_key From_3_12 (Path_of (U ''/srv/notes.txt''))
     < path_key From_3_12 (Path_of (U ''.github/x.yml''))"
  by (simp add: path_eval path_str_def)

text \<open>
  A file is not a path. In the sample file system, walking \<open>docs\<close> from \<open>/proj\<close> yields
  \<open>docs/README.md\<close>, and the explicit list names the same file as
  \<open>/proj/docs/README.md\<close>. The two paths are different elements of the set, so the file is
  in the returned list twice: a file reachable both ways does not appear exactly once.
\<close>

theorem collect_files_same_file_twice:
  "fst (collect_files sample_env (U ''/proj'') (Some [U ''docs''])
          (Some [U ''/proj/docs/README.md'']) None)
     = Inr [Path_of (U ''/proj/docs/README.md''), Path_of (U ''docs/README.md''),
            Path_of (U ''docs/data.json''), Path_of (U ''docs/legacy.txt'')]
   \<and> absolute (U ''/proj'') (Path_of (U ''docs/README.md''))
       = Path_of (U ''/proj/docs/README.md'')"
  by (simp add: collect_eval env_eval path_eval)

text \<open>
  Claim C6, for paths instead of files. When \<open>collect_files\<close> returns, its list has no
  duplicates, is in ascending order of the paths (the order of the library in use), and
  its elements are exactly the walked paths together with the listed paths of the
  specification; a path that is both walked and listed occurs in it once. It does return
  when none of the tests it makes raises.
\<close>

theorem collect_files_sorted_union:
  "(fst (collect_files e cwd directories files ignore_patterns) = Inr r \<longrightarrow>
      distinct r
      \<and> sorted (map (path_key (pathlib e)) r)
      \<and> set r =
          spec_walked e cwd (patterns_of ignore_patterns) (the_list directories)
          \<union> spec_listed e cwd (patterns_of ignore_patterns) (the_list files)
      \<and> (\<forall>fp. fp \<in> spec_walked e cwd (patterns_of ignore_patterns) (the_list directories) \<and>
               fp \<in> spec_listed e cwd (patterns_of ignore_patterns) (the_list files) \<longrightarrow>
               count_list r fp = 1))
   \<and> (tests_answer e cwd (the_list directories) (the_list files) \<longrightarrow>
        (\<exists>r'. fst (collect_files e cwd directories files ignore_patterns) = Inr r'))"
proof (intro conjI impI)
  assume ret: "fst (collect_files e cwd directories files ignore_patterns) = Inr r"
  let ?W = "spec_walked e cwd (patterns_of ignore_patterns) (the_list directories)"
  let ?L = "spec_listed e cwd (patterns_of ignore_patterns) (the_list files)"
  from ret obtain w l
    where w: "fst (collect_directories e cwd (patterns_of ignore_patterns)
                     (the_list directories)) = Inr w"
      and l: "fst (collect_listed e cwd (patterns_of ignore_patterns) (the_list files)) = Inr l"
      and r: "r = sort_key (path_key (pathlib e)) (remdups (w @ l))"
    by (auto simp: fst_collect_files split: sum.splits)
  show d: "distinct r" unfolding r by simp
  show "sorted (map (path_key (pathlib e)) r)" unfolding r by (rule sorted_sort_key)
  show m: "set r = ?W \<union> ?L"
    unfolding r using fst_collect_directories_Inr [OF w] fst_collect_listed_Inr [OF l]
    by simp
  show "\<forall>fp. fp \<in> ?W \<and> fp \<in> ?L \<longrightarrow> count_list r fp = 1"
  proof (intro allI impI)
    fix fp
    assume "fp \<in> ?W \<and> fp \<in> ?L"
    with m have "fp \<in> set r" by simp
    with d show "count_list r fp = 1" by (rule count_list_distinct)
  qed
next
  assume "tests_answer e cwd (the_list directories) (the_list files)"
  then obtain w l
    where "fst (collect_directories e cwd (patterns_of ignore_patterns)
                     (the_list directories)) = Inr w"
      and "fst (collect_listed e cwd (patterns_of ignore_patterns) (the_list files)) = Inr l"
    unfolding tests_answer_def
    using collect_directories_answers
            [of e cwd "the_list directories" "patterns_of ignore_patterns"]
      collect_listed_answers [of e cwd "the_list files" "patterns_of ignore_patterns"]
    by blast
  then show "\<exists>r'. fst (collect_files e cwd directories files ignore_patterns) = Inr r'"
    by (simp add: fst_collect_files)
qed

lemma docs_walked:
  "fst (collect_directories sample_env (U ''/proj'') DEFAULT_IGNORE_PATTERNS [U ''docs''])
     = Inr [Path_of (U ''docs/data.json''), Path_of (U ''docs/README.md''),
            Path_of (U ''docs/legacy.txt'')]"
  by (simp add: collect_eval env_eval path_eval)

theorem collect_files_sorted_union_witness:
  "fst (collect_files sample_env (U ''/proj'') (Some [U ''docs''])
          (Some [U ''./docs/README.md'']) None)
     = Inr [Path_of (U ''docs/README.md''), Path_of (U ''docs/data.json''),
            Path_of (U ''docs/legacy.txt'')]
   \<and> Path_of (U ''docs/README.md'')
       \<in> spec_walked sample_env (U ''/proj'') (patterns_of None) (the_list (Some [U ''docs'']))
   \<and> Path_of (U ''docs/README.md'')
       \<in> spec_listed sample_env (U ''/proj'') (patterns_of None)
           (the_list (Some [U ''./docs/README.md'']))
   \<and> count_list [Path_of (U ''docs/README.md''), Path_of (U ''docs/data.json''),
                  Path_of (U ''docs/legacy.txt'')] (Path_of (U ''docs/README.md'')) = 1
   \<and> sorted (map (path_key (pathlib sample_env))
               [Path_of (U ''docs/README.md''), Path_of (U ''docs/data.json''),
                Path_of (U ''docs/legacy.txt'')])
   \<and> tests_answer sample_env (U ''/proj'') (the_list (Some [U ''docs'']))
        (the_list (Some [U ''./docs/README.md'']))"
proof -
  let ?fp = "Path_of (U ''docs/README.md'')"
  let ?r = "[Path_of (U ''docs/README.md''), Path_of (U ''docs/data.json''),
            Path_of (U ''docs/legacy.txt'')]"
  note inst = collect_files_sorted_union
                [of sample_env "U ''/proj''" "Some [U ''docs'']" "Some [U ''./docs/README.md'']"
                   None ?r]
  have t: "tests_answer sample_env (U ''/proj'') (the_list (Some [U ''docs'']))
        (the_list (Some [U ''./docs/README.md'']))"
    by (simp add: tests_answer_def env_eval path_eval)
  have r: "fst (collect_files sample_env (U ''/proj'') (Some [U ''docs''])
          (Some [U ''./docs/README.md'']) None) = Inr ?r"
    by (simp add: collect_eval env_eval path_eval)
  have w: "?fp \<in> spec_walked sample_env (U ''/proj'') (patterns_of None)
                    (the_list (Some [U ''docs'']))"
    unfolding patterns_of_def option.simps the_list.simps
      fst_collect_directories_Inr [OF docs_walked, symmetric]
    by simp
  have lf: "fst (collect_listed sample_env (U ''/proj'') DEFAULT_IGNORE_PATTERNS
                   [U ''./docs/README.md'']) = Inr [?fp]"
    by (simp add: collect_eval env_eval path_eval)
  have l: "?fp \<in> spec_listed sample_env (U ''/proj'') (patterns_of None)
                    (the_list (Some [U ''./docs/README.md'']))"
    unfolding patterns_of_def option.simps the_list.simps
      fst_collect_listed_Inr [OF lf, symmetric]
    by simp
  have c: "count_list ?r ?fp = 1"
    using inst r w l by blast
  have s: "sorted (map (path_key (pathlib sample_env)) ?r)"
    using inst r by blast
  from r w l c s t show ?thesis by (intro conjI)
qed














section \<open>Reading a file\<close>

lemma unable_to_decode:
  "U ''[Error reading file: Unable to decode]'' =
     U ''[Error reading file: '' @ U ''Unable to decode'' @ U '']''"
  by (simp add: U_def)

text \<open>
  Claim C7. \<open>read_file_content\<close> always answers a string. When the UTF-8 read succeeds it
  is the rendered content. When the UTF-8 read fails to decode, the Latin-1 read is made, and
  only then: its content is kept when the first hundred characters are all below 128,
  otherwise the answer is the binary placeholder; if that second read fails the answer is
  an error placeholder. Any other failure of the first read gives the error placeholder
  with the text of the exception.
\<close>

theorem read_file_content_total:
  "(open_read e cwd p UTF8 = Content c \<longrightarrow>
      fst (read_file_content e cwd p ln) = render_content ln c)
   \<and> (open_read e cwd p UTF8 = DecodeError \<and> open_read e cwd p Latin1 = Content c \<and>
       list_all (\<lambda>ch. ch < 128) (take 100 c) \<longrightarrow>
      fst (read_file_content e cwd p ln) = render_content ln c)
   \<and> (open_read e cwd p UTF8 = DecodeError \<and> open_read e cwd p Latin1 = Content c \<and>
       \<not> list_all (\<lambda>ch. ch < 128) (take 100 c) \<longrightarrow>
      fst (read_file_content e cwd p ln) = U ''[Binary file - content not displayed]'')
   \<and> (open_read e cwd p UTF8 = DecodeError \<and> (\<forall>c'. open_read e cwd p Latin1 \<noteq> Content c') \<longrightarrow>
      fst (read_file_content e cwd p ln) =
        U ''[Error reading file: '' @ U ''Unable to decode'' @ U '']'')
   \<and> (open_read e cwd p UTF8 = ReadError err \<longrightarrow>
      fst (read_file_content e cwd p ln) = U ''[Error reading file: '' @ err @ U '']'')
   \<and> (OpenRead p Latin1 \<in> set (snd (read_file_content e cwd p ln)) \<longleftrightarrow>
        open_read e cwd p UTF8 = DecodeError)"
  unfolding unable_to_decode [symmetric]
  by (auto simp: read_file_content_def split: read_outcome.splits)

theorem read_file_content_total_witness:
  "open_read sample_env (U ''/proj'') (Path_of (U ''docs/legacy.txt'')) UTF8 = DecodeError
   \<and> open_read sample_env (U ''/proj'') (Path_of (U ''docs/legacy.txt'')) Latin1
       = Content (replicate 100 97 @ [233])
   \<and> list_all (\<lambda>ch::nat. ch < 128) (take 100 (replicate 100 97 @ [233]))
   \<and> fst (read_file_content sample_env (U ''/proj'') (Path_of (U ''docs/legacy.txt'')) False)
       = replicate 100 97 @ [233]
   \<and> open_read sample_env (U ''/proj'') (Path_of (U ''docs/raw.bin'')) UTF8 = DecodeError
   \<and> open_read sample_env (U ''/proj'') (Path_of (U ''docs/raw.bin'')) Latin1
       = Content [137, 80, 78, 71]
   \<and> \<not> list_all (\<lambda>ch::nat. ch < 128) (take 100 [137, 80, 78, 71])
   \<and> fst (read_file_content sample_env (U ''/proj'') (Path_of (U ''docs/raw.bin'')) True)
       = U ''[Binary file - content not displayed]''
   \<and> open_read sample_env (U ''/proj'') (Path_of (U ''docs/gone.txt'')) UTF8
       = ReadError (U ''[Errno 2] No such file or directory: '' @ [39] @ U ''docs/gone.txt''
                      @ [39])
   \<and> fst (read_file_content sample_env (U ''/proj'') (Path_of (U ''docs/gone.txt'')) True)
       = U ''[Error reading file: ''
           @ (U ''[Errno 2] No such file or directory: '' @ [39] @ U ''docs/gone.txt'' @ [39])
           @ U '']''
   \<and> open_read sample_env (U ''/proj'') (Path_of (U ''docs/README.md'')) UTF8
       = Content (U ''# Title'')
   \<and> fst (read_file_content sample_env (U ''/proj'') (Path_of (U ''docs/README.md'')) True)
       = U ''   1'' @ [8594] @ U ''# Title''"
proof -
  let ?l = "Path_of (U ''docs/legacy.txt'')"
  let ?b = "Path_of (U ''docs/raw.bin'')"
  let ?g = "Path_of (U ''docs/gone.txt'')"
  let ?m = "Path_of (U ''docs/README.md'')"
  have l1: "open_read sample_env (U ''/proj'') ?l UTF8 = DecodeError"
    by (simp add: env_eval path_eval)
  have l2: "open_read sample_env (U ''/proj'') ?l Latin1 = Content (replicate 100 97 @ [233])"
    by (simp add: env_eval path_eval)
  have l3: "list_all (\<lambda>ch::nat. ch < 128) (take 100 (replicate 100 97 @ [233]))"
    by (simp add: list_all_iff)
  have l4: "fst (read_file_content sample_env (U ''/proj'') ?l False)
      = render_content False (replicate 100 97 @ [233])"
    using read_file_content_total [of sample_env "U ''/proj''" ?l "replicate 100 97 @ [233]" False]
          l1 l2 l3
    by blast
  have b1: "open_read sample_env (U ''/proj'') ?b UTF8 = DecodeError"
    by (simp add: env_eval path_eval)
  have b2: "open_read sample_env (U ''/proj'') ?b Latin1 = Content [137, 80, 78, 71]"
    by (simp add: env_eval path_eval)
  have b3: "\<not> list_all (\<lambda>ch::nat. ch < 128) (take 100 [137, 80, 78, 71])"
    by simp
  have b4: "fst (read_file_content sample_env (U ''/proj'') ?b True)
      = U ''[Binary file - content not displayed]''"
    using read_file_content_total [of sample_env "U ''/proj''" ?b "[137, 80, 78, 71]" True]
          b1 b2 b3
    by blast
  let ?err = "U ''[Errno 2] No such file or directory: '' @ [39] @ U ''docs/gone.txt'' @ [39]"
  have g1: "open_read sample_env (U ''/proj'') ?g UTF8 = ReadError ?err"
    by (simp add: env_eval path_eval path_str_def)
  have g2: "fst (read_file_content sample_env (U ''/proj'') ?g True)
      = U ''[Error reading file: '' @ ?err @ U '']''"
    using read_file_content_total [of sample_env "U ''/proj''" ?g _ True ?err] g1
    by blast
  have m1: "open_read sample_env (U ''/proj'') ?m UTF8 = Content (U ''# Title'')"
    by (simp add: env_eval path_eval)
  have m2: "fst (read_file_content sample_env (U ''/proj'') ?m True)
      = render_content True (U ''# Title'')"
    using read_file_content_total [of sample_env "U ''/proj''" ?m "U ''# Title''" True] m1
    by blast
  have m3: "render_content True (U ''# Title'') = U ''   1'' @ [8594] @ U ''# Title''"
    by (simp add: render_content_def splitlines_def is_linebreak_def rjust4_def
          str_of_nat.simps U_def numeral_3_eq_3)
  from l4 have l5: "fst (read_file_content sample_env (U ''/proj'') ?l False)
      = replicate 100 97 @ [233]"
    by (simp add: render_content_def)
  from m2 m3 have m4: "fst (read_file_content sample_env (U ''/proj'') ?m True)
      = U ''   1'' @ [8594] @ U ''# Title''"
    by simp
  from l1 l2 l3 l5 b1 b2 b3 b4 g1 g2 m1 m4 show ?thesis by (intro conjI)
qed


section \<open>Building the document\<close>

lemma writing_error_differs:
  "U ''Error writing context file: '' @ err
     \<noteq> U ''At least one of 'directories' or 'files' must be provided''"
  by (simp add: U_def)

lemma fst_except_block:
  "(\<exists>output_path. fst (except_block output_file r) = Inr output_path)
   \<or> (\<exists>err. fst (except_block output_file r)
               = Inl (ValueError (U ''Error writing context file: '' @ err)))"
  by (auto simp: except_block_def split: prod.splits sum.splits)

lemma fst_finally_block:
  "fst (finally_block e original_cwd cwd (result, ev)) = result
   \<or> (\<exists>err. fst (finally_block e original_cwd cwd (result, ev)) = Inl (OSError err))"
  by (auto simp: finally_block_def split: sum.splits)

lemma finally_except_not_validation:
  "fst (finally_block e original_cwd cwd (fst (except_block output_file r), ev))
     \<noteq> Inl (ValueError (U ''At least one of 'directories' or 'files' must be provided''))"
proof -
  let ?x = "fst (except_block output_file r)"
  consider (ok) output_path where "?x = Inr output_path"
    | (failed) err where "?x = Inl (ValueError (U ''Error writing context file: '' @ err))"
    using fst_except_block [of output_file r] by blast
  then show ?thesis
  proof cases
    case ok
    with fst_finally_block [of e original_cwd cwd ?x ev] show ?thesis by auto
  next
    case failed
    with fst_finally_block [of e original_cwd cwd ?x ev] writing_error_differs [of err]
    show ?thesis by auto
  qed
qed

text \<open>
  Claim C8. \<open>build_context\<close> raises the \<open>ValueError\<close> that asks for directories or files
  exactly when both lists are empty or absent, and then it has made no call on the
  environment: the trace is empty and the working directory is the one it started in.
\<close>

theorem build_context_validation_first:
  "(fst (build_context e cwd directories files output_file overview_text summarize_model
           ignore_patterns base_directory current_working_directory include_line_numbers)
      = Inl (ValueError (U ''At least one of 'directories' or 'files' must be provided''))
    \<longleftrightarrow> \<not> truthy directories \<and> \<not> truthy files)
   \<and> (\<not> truthy directories \<and> \<not> truthy files \<longrightarrow>
        build_context e cwd directories files output_file overview_text summarize_model
          ignore_patterns base_directory current_working_directory include_line_numbers
        = (Inl (ValueError (U ''At least one of 'directories' or 'files' must be provided'')),
           cwd, []))"
proof (cases "\<not> truthy directories \<and> \<not> truthy files")
  case True
  then show ?thesis by (simp add: build_context_def)
next
  case False
  have "fst (build_context e cwd directories files output_file overview_text summarize_model
           ignore_patterns base_directory current_working_directory include_line_numbers)
      \<noteq> Inl (ValueError (U ''At least one of 'directories' or 'files' must be provided''))"
    using False finally_except_not_validation
    by (auto simp: build_context_def Let_def case_prod_beta split: sum.splits)
  with False show ?thesis by blast
qed

lemma no_chdir_check_size: "filter is_chdir (snd (check_size e cwd fp)) = []"
  by (simp add: check_size_def split: sum.splits)

lemma no_chdir_and_then:
  "filter is_chdir (snd a) = [] \<Longrightarrow> filter is_chdir (snd b) = [] \<Longrightarrow>
   filter is_chdir (snd (and_then a b)) = []"
  by (simp add: snd_and_then)

lemma no_chdir_walk_entry: "filter is_chdir (snd (walk_entry e cwd pats fp)) = []"
  by (simp add: walk_entry_def case_prod_beta no_chdir_check_size split: sum.splits)

lemma no_chdir_collect_walk: "filter is_chdir (snd (collect_walk e cwd pats fps)) = []"
  by (induction fps) (simp_all add: no_chdir_and_then no_chdir_walk_entry)

lemma no_chdir_collect_directory:
  "filter is_chdir (snd (collect_directory e cwd pats d)) = []"
  using no_chdir_collect_walk [of e cwd pats "fst (path_rglob e cwd (Path_of d))"]
  by (simp add: collect_directory_def Let_def case_prod_beta snd_and_then
        split: sum.splits option.splits)

lemma no_chdir_collect_directories:
  "filter is_chdir (snd (collect_directories e cwd pats ds)) = []"
  by (induction ds) (simp_all add: no_chdir_and_then no_chdir_collect_directory)

lemma no_chdir_collect_file: "filter is_chdir (snd (collect_file e cwd pats f)) = []"
  by (simp add: collect_file_def Let_def case_prod_beta no_chdir_check_size split: sum.splits)

lemma no_chdir_collect_listed:
  "filter is_chdir (snd (collect_listed e cwd pats fs)) = []"
  by (induction fs) (simp_all add: no_chdir_and_then no_chdir_collect_file)

lemma no_chdir_collect_files:
  "filter is_chdir (snd (collect_files e cwd directories files ignore_patterns)) = []"
  by (simp add: snd_collect_files no_chdir_and_then no_chdir_collect_directories
        no_chdir_collect_listed)

lemma no_chdir_read_file_content:
  "filter is_chdir (snd (read_file_content e cwd fp ln)) = []"
  by (simp add: read_file_content_def split: read_outcome.splits)

lemma no_chdir_generate_file_summary:
  "filter is_chdir (snd (generate_file_summary e fp content model)) = []"
  by (simp add: generate_file_summary_def Let_def split: sum.splits)

lemma no_chdir_process_file:
  "filter is_chdir (snd (process_file e cwd sm ln fp)) = []"
  by (simp add: process_file_def Let_def case_prod_beta no_chdir_read_file_content
        no_chdir_generate_file_summary split: sum.splits)

lemma no_chdir_process_files:
  "filter is_chdir (snd (process_files e cwd sm ln fps)) = []"
  by (induction fps) (simp_all add: Let_def case_prod_beta no_chdir_process_file)

lemma no_chdir_base_path_of:
  "filter is_chdir (snd (base_path_of e cwd b directories files)) = []"
  by (simp add: base_path_of_def split: sum.splits)

lemma no_chdir_write_context_file:
  "filter is_chdir (snd (write_context_file e cwd output_file content_lines)) = []"
  by (simp add: write_context_file_def Let_def split: option.splits)

lemma no_chdir_try_block:
  "filter is_chdir (snd (try_block e cwd directories files output_file overview_text
      summarize_model ignore_patterns base_directory include_line_numbers)) = []"
  using no_chdir_base_path_of [of e cwd base_directory directories files]
    no_chdir_collect_files [of e cwd directories files ignore_patterns]
  by (auto simp: try_block_def Let_def case_prod_beta
        no_chdir_process_files no_chdir_write_context_file split: prod.splits sum.splits)

lemma no_chdir_except_block:
  "filter is_chdir (snd r) = [] \<Longrightarrow> filter is_chdir (snd (except_block output_file r)) = []"
  by (auto simp: except_block_def split: prod.splits sum.splits)

lemma cwd_finally_block_None: "fst (snd (finally_block e None cwd r)) = cwd"
  by (simp add: finally_block_def split: prod.splits)

lemma events_finally_block_None: "snd (snd (finally_block e None cwd r)) = snd r"
  by (simp add: finally_block_def split: prod.splits)

lemma cwd_finally_block_Some:
  "original_cwd \<noteq> [] \<Longrightarrow> os_chdir e new_cwd original_cwd = Inr cwd \<Longrightarrow>
   fst (snd (finally_block e (Some original_cwd) new_cwd r)) = cwd"
  by (simp add: finally_block_def split: prod.splits)

text \<open>
  Claim C9. Provided the operating system lets the process return (the name that
  \<open>os.getcwd\<close> answered is not empty and \<open>os.chdir\<close> to it from the alternate directory
  succeeds and leads to the original directory), every call of \<open>build_context\<close> leaves
  the working directory it started in, whether it returns or raises. Without an alternate
  working directory the trace has no \<open>os.chdir\<close> at all.
\<close>

theorem build_context_restores_cwd:
  "((\<forall>original_cwd new_cwd.
        os_getcwd e cwd = Inr original_cwd \<and>
        os_chdir e cwd (the_list current_working_directory) = Inr new_cwd \<longrightarrow>
        original_cwd \<noteq> [] \<and> os_chdir e new_cwd original_cwd = Inr cwd) \<longrightarrow>
      fst (snd (build_context e cwd directories files output_file overview_text
                  summarize_model ignore_patterns base_directory current_working_directory
                  include_line_numbers)) = cwd)
   \<and> (\<not> truthy current_working_directory \<longrightarrow>
        filter is_chdir
          (snd (snd (build_context e cwd directories files output_file overview_text
                       summarize_model ignore_patterns base_directory
                       current_working_directory include_line_numbers))) = [])"
proof (intro conjI impI)
  assume return_ok: "\<forall>original_cwd new_cwd.
        os_getcwd e cwd = Inr original_cwd \<and>
        os_chdir e cwd (the_list current_working_directory) = Inr new_cwd \<longrightarrow>
        original_cwd \<noteq> [] \<and> os_chdir e new_cwd original_cwd = Inr cwd"
  show "fst (snd (build_context e cwd directories files output_file overview_text
                  summarize_model ignore_patterns base_directory current_working_directory
                  include_line_numbers)) = cwd"
  proof (cases "\<not> truthy directories \<and> \<not> truthy files")
    case True
    then show ?thesis by (simp add: build_context_def)
  next
    case valid: False
    show ?thesis
    proof (cases "truthy current_working_directory")
      case False
      with valid show ?thesis
        by (simp add: build_context_def Let_def case_prod_beta cwd_finally_block_None)
    next
      case True
      show ?thesis
      proof (cases "os_getcwd e cwd")
        case (Inl err)
        with valid True show ?thesis by (simp add: build_context_def Let_def)
      next
        case (Inr original_cwd)
        note getcwd = this
        show ?thesis
        proof (cases "os_chdir e cwd (the_list current_working_directory)")
          case (Inl err)
          with valid True getcwd show ?thesis by (simp add: build_context_def Let_def)
        next
          case (Inr new_cwd)
          with return_ok getcwd have "original_cwd \<noteq> []" "os_chdir e new_cwd original_cwd = Inr cwd"
            by blast+
          with valid True getcwd Inr show ?thesis
            by (simp add: build_context_def Let_def case_prod_beta cwd_finally_block_Some)
        qed
      qed
    qed
  qed
next
  assume no_alt: "\<not> truthy current_working_directory"
  show "filter is_chdir
          (snd (snd (build_context e cwd directories files output_file overview_text
                       summarize_model ignore_patterns base_directory
                       current_working_directory include_line_numbers))) = []"
  proof (cases "\<not> truthy directories \<and> \<not> truthy files")
    case True
    then show ?thesis by (simp add: build_context_def)
  next
    case False
    with no_alt show ?thesis
      by (simp add: build_context_def Let_def case_prod_beta events_finally_block_None
            no_chdir_except_block no_chdir_try_block)
  qed
qed

lemma base_path_of_given:
  "truthy directories \<or> truthy files \<Longrightarrow>
   \<exists>base_path. base_path_of e cwd base_directory directories files = (Inr base_path, [])"
  by (auto simp: base_path_of_def)




section \<open>The sample environment\<close>

lemma sample_return:
  "\<forall>original_cwd new_cwd.
     os_getcwd sample_env (U ''/proj'') = Inr original_cwd \<and>
     os_chdir sample_env (U ''/proj'') (the_list (Some (U ''/work''))) = Inr new_cwd \<longrightarrow>
     original_cwd \<noteq> [] \<and> os_chdir sample_env new_cwd original_cwd = Inr (U ''/proj'')"
  by (auto simp: sample_env_def U_def split: if_splits)

lemma lang_md: "get_file_language (Path_of (U ''docs/README.md'')) = U ''markdown''"
  by code_simp

lemma lang_json: "get_file_language (Path_of (U ''docs/data.json'')) = U ''json''"
  by code_simp

lemma read_md:
  "read_file_content sample_env (U ''/proj'') (Path_of (U ''docs/README.md'')) True
     = (U ''   1'' @ [8594] @ U ''# Title'', [OpenRead (Path_of (U ''docs/README.md'')) UTF8])"
  by (simp add: read_file_content_def env_eval path_eval render_content_def splitlines_def
        is_linebreak_def rjust4_def str_of_nat.simps numeral_3_eq_3)

lemma read_json:
  "read_file_content sample_env (U ''/proj'') (Path_of (U ''docs/data.json'')) False
     = (U ''[1, 2]'', [OpenRead (Path_of (U ''docs/data.json'')) UTF8])"
  by (simp add: read_file_content_def env_eval path_eval render_content_def)

lemma count_md: "count_max_backticks (U ''   1'' @ 8594 # U ''# Title'') = 0"
  by (simp add: count_max_backticks_def U_def)

lemma rel_md: "relative_to (Path_of (U ''docs/README.md'')) (Path_of (U ''/proj'')) = None"
  by (simp add: relative_to_def path_eval)

lemma rel_json: "relative_to (Path_of (U ''docs/data.json'')) (Path_of (U ''/proj'')) = None"
  by (simp add: relative_to_def path_eval)

lemma str_md: "path_str (Path_of (U ''docs/README.md'')) = U ''docs/README.md''"
  by (simp add: path_str_def path_eval)

lemma str_json: "path_str (Path_of (U ''docs/data.json'')) = U ''docs/data.json''"
  by (simp add: path_str_def path_eval)

lemma getcwd_sample: "os_getcwd sample_env c = Inr c"
  by (simp add: sample_env_def)

lemma write_failure_raises:
  assumes "truthy directories \<or> truthy files"
    and "fst (collect_files e cwd directories files ignore_patterns) = Inr fs"
    and "path_mkdir e cwd (parent (Path_of out)) = Some err"
  shows "fst (except_block (Some out)
                (try_block e cwd directories files (Some out) overview_text summarize_model
                   ignore_patterns base_directory include_line_numbers))
         = Inl (ValueError (U ''Error writing context file: '' @ err))"
proof -
  from assms(1) obtain bp where "base_path_of e cwd base_directory directories files = (Inr bp, [])"
    using base_path_of_given by blast
  with assms(2,3) show ?thesis
    by (cases "collect_files e cwd directories files ignore_patterns")
       (simp add: try_block_def except_block_def write_context_file_def Let_def case_prod_beta)
qed

theorem build_context_validation_first_witness:
  "\<not> truthy (None :: pystr list option) \<and> \<not> truthy (Some ([] :: pystr list))
   \<and> build_context sample_env (U ''/proj'') None (Some []) (Some (U ''out/context.md'')) None
        (Some (U ''gpt'')) None None (Some (U ''/work'')) True
     = (Inl (ValueError (U ''At least one of 'directories' or 'files' must be provided'')),
        U ''/proj'', [])
   \<and> truthy (Some [U ''docs''])
   \<and> fst (build_context sample_env (U ''/proj'') (Some [U ''docs'']) None
             (Some (U ''out/context.md'')) None None None None None True)
       \<noteq> Inl (ValueError (U ''At least one of 'directories' or 'files' must be provided''))"
proof -
  have a: "\<not> truthy (None :: pystr list option)" "\<not> truthy (Some ([] :: pystr list))"
    by simp_all
  have b: "truthy (Some [U ''docs''])" by simp
  have c: "build_context sample_env (U ''/proj'') None (Some []) (Some (U ''out/context.md'')) None
        (Some (U ''gpt'')) None None (Some (U ''/work'')) True
     = (Inl (ValueError (U ''At least one of 'directories' or 'files' must be provided'')),
        U ''/proj'', [])"
    using build_context_validation_first
            [of sample_env "U ''/proj''" None "Some []" "Some (U ''out/context.md'')" None
               "Some (U ''gpt'')" None None "Some (U ''/work'')" True] a
    by blast
  have d: "fst (build_context sample_env (U ''/proj'') (Some [U ''docs'']) None
             (Some (U ''out/context.md'')) None None None None None True)
       \<noteq> Inl (ValueError (U ''At least one of 'directories' or 'files' must be provided''))"
    using build_context_validation_first
            [of sample_env "U ''/proj''" "Some [U ''docs'']" None "Some (U ''out/context.md'')"
               None None None None None True] b
    by blast
  from a b c d show ?thesis by (intro conjI)
qed

theorem build_context_restores_cwd_witness:
  "os_getcwd sample_env (U ''/proj'') = Inr (U ''/proj'')
   \<and> os_chdir sample_env (U ''/proj'') (U ''/work'') = Inr (U ''/work'')
   \<and> os_chdir sample_env (U ''/work'') (U ''/proj'') = Inr (U ''/proj'')
   \<and> fst (build_context sample_env (U ''/proj'') (Some [U ''docs'']) None
             (Some (U ''/sealed/context.md'')) None None None None (Some (U ''/work'')) True)
       = Inl (ValueError (U ''Error writing context file: ''
                            @ (U ''[Errno 13] Permission denied: '' @ [39] @ U ''/sealed''
                                 @ [39])))
   \<and> fst (snd (build_context sample_env (U ''/proj'') (Some [U ''docs'']) None
                  (Some (U ''/sealed/context.md'')) None None None None (Some (U ''/work''))
                  True))
       = U ''/proj''
   \<and> \<not> truthy (None :: pystr option)
   \<and> filter is_chdir
        (snd (snd (build_context sample_env (U ''/proj'') (Some [U ''docs'']) None
                     (Some (U ''out/context.md'')) None None None None None True))) = []"
proof -
  have g: "os_getcwd sample_env (U ''/proj'') = Inr (U ''/proj'')"
    by (simp add: sample_env_def)
  have c1: "os_chdir sample_env (U ''/proj'') (U ''/work'') = Inr (U ''/work'')"
    by (simp add: sample_env_def U_def)
  have c2: "os_chdir sample_env (U ''/work'') (U ''/proj'') = Inr (U ''/proj'')"
    by (simp add: sample_env_def U_def)
  have ne: "U ''/proj'' \<noteq> []" "U ''/work'' \<noteq> []" by (simp_all add: U_def)
  let ?err = "U ''[Errno 13] Permission denied: '' @ [39] @ U ''/sealed'' @ [39]"
  have m: "path_mkdir sample_env (U ''/work'') (parent (Path_of (U ''/sealed/context.md'')))
      = Some ?err"
    by (simp add: env_eval parent_def path_eval path_str_def)
  have cf: "fst (collect_files sample_env (U ''/work'') (Some [U ''docs'']) None None) = Inr []"
    by (simp add: collect_eval env_eval path_eval)
  have w: "fst (except_block (Some (U ''/sealed/context.md''))
                (try_block sample_env (U ''/work'') (Some [U ''docs'']) None
                   (Some (U ''/sealed/context.md'')) None None None None True))
         = Inl (ValueError (U ''Error writing context file: '' @ ?err))"
    using cf m by (intro write_failure_raises) simp_all
  have r: "fst (build_context sample_env (U ''/proj'') (Some [U ''docs'']) None
             (Some (U ''/sealed/context.md'')) None None None None (Some (U ''/work'')) True)
       = Inl (ValueError (U ''Error writing context file: '' @ ?err))"
    using w ne
    by (simp add: build_context_def Let_def case_prod_beta g c1 c2 finally_block_def)
  have k: "fst (snd (build_context sample_env (U ''/proj'') (Some [U ''docs'']) None
                  (Some (U ''/sealed/context.md'')) None None None None (Some (U ''/work''))
                  True))
       = U ''/proj''"
    using build_context_restores_cwd
            [of sample_env "U ''/proj''" "Some (U ''/work'')" "Some [U ''docs'']" None
               "Some (U ''/sealed/context.md'')" None None None None True]
          sample_return
    by blast
  have n: "\<not> truthy (None :: pystr option)" by simp
  have f: "filter is_chdir
        (snd (snd (build_context sample_env (U ''/proj'') (Some [U ''docs'']) None
                     (Some (U ''out/context.md'')) None None None None None True))) = []"
    using build_context_restores_cwd
            [of sample_env "U ''/proj''" None "Some [U ''docs'']" None
               "Some (U ''out/context.md'')" None None None None True] n
    by blast
  from g c1 c2 r k n f show ?thesis by (intro conjI)
qed


section \<open>What the loop body does with summaries and fences\<close>

text \<open>
  The summarizer is called exactly when a model is given and the rendered content does not
  start with \<open>[\<close>. Numbered content never starts with \<open>[\<close>, so with line numbers the test
  separates the placeholders of a failed read from content. The last four lines of a
  section are the code block, fenced by one backtick more than \<open>count_max_backticks\<close> finds
  for Markdown and by three backticks otherwise.
\<close>

lemma prompts_generate_file_summary:
  "filter is_prompt (snd (generate_file_summary e fp content model)) \<noteq> []"
  by (simp add: generate_file_summary_def Let_def split: sum.splits)

lemma no_prompt_read_file_content:
  "filter is_prompt (snd (read_file_content e cwd fp ln)) = []"
  by (simp add: read_file_content_def split: read_outcome.splits)

lemma summarizer_called_iff:
  "os_getcwd e cwd = Inr c \<Longrightarrow>
   filter is_prompt (snd (process_file e cwd sm ln fp)) \<noteq> [] \<longleftrightarrow>
     truthy sm \<and> \<not> startswith (fst (read_file_content e cwd fp ln)) (U ''['')"
  by (simp add: process_file_def Let_def case_prod_beta no_prompt_read_file_content
        prompts_generate_file_summary)

lemma join_Cons_nonempty: "x \<noteq> [] \<Longrightarrow> hd (join sep (x # xs)) = hd x"
  by (cases xs) simp_all

lemma join_Cons_not_Nil: "x \<noteq> [] \<Longrightarrow> join sep (x # xs) \<noteq> []"
  by (cases xs) simp_all

lemma numbered_content_no_bracket:
  "\<not> startswith (render_content True content) (U ''['')"
proof (cases "splitlines content")
  case Nil
  then show ?thesis by (simp add: render_content_def startswith_def U_def)
next
  case (Cons l ls)
  let ?x = "rjust4 (str_of_nat 1) @ [8594] @ l"
  have x: "?x \<noteq> []" "hd ?x = 32"
    by (simp_all add: rjust4_def str_of_nat.simps numeral_3_eq_3)
  have r: "render_content True content = join [10] (?x # numbered_lines_from (1 + 1) ls)"
    by (simp add: render_content_def Cons)
  have "hd (render_content True content) = 32" "render_content True content \<noteq> []"
    unfolding r using x by (simp_all only: join_Cons_nonempty join_Cons_not_Nil not_False_eq_True)
  then show ?thesis
    by (cases "render_content True content") (auto simp: startswith_def U_def)
qed

lemma fence_lines:
  "os_getcwd e cwd = Inr c \<Longrightarrow>
   drop 5 (fst (process_file e cwd sm ln fp)) =
     (if get_file_language fp = U ''markdown''
      then [replicate (count_max_backticks (fst (read_file_content e cwd fp ln)) + 1) 96
              @ U ''markdown'',
            fst (read_file_content e cwd fp ln),
            replicate (count_max_backticks (fst (read_file_content e cwd fp ln)) + 1) 96,
            []]
      else [U ''```'' @ get_file_language fp, fst (read_file_content e cwd fp ln), U ''```'',
            []])"
  by (simp add: process_file_def Let_def case_prod_beta)

section \<open>Fence width and summaries at concrete files\<close>

text \<open>
  Claim C1. The fence of a Markdown file is to be one backtick longer than the longest run
  of backticks in its content and never shorter than four. The program has no such
  minimum: for \<open>docs/README.md\<close> of the sample environment, whose content has no backtick,
  the section it renders opens and closes the block with a single backtick.
\<close>

theorem markdown_fence_of_one_backtick:
  "fst (process_file sample_env (U ''/proj'') None True (Path_of (U ''docs/README.md'')))
     = [U ''## docs/README.md'',
        U ''### Summary'',
        U ''[No summary available]'',
        [],
        U ''### File Contents'',
        [96] @ U ''markdown'',
        U ''   1'' @ [8594] @ U ''# Title'',
        [96],
        []]"
  apply (simp add: process_file_def getcwd_sample rel_md read_md lang_md count_md str_md Let_def)
  apply (simp add: U_def)
  done

text \<open>
  Claim C2. A summary is to be requested exactly when a model is given and the file was
  read. The program takes content that starts with \<open>[\<close> for a failed read: for
  \<open>docs/data.json\<close> of the sample environment, read successfully without line numbers, with
  a model given, it renders the placeholder and its trace has no call of the summarizer.
\<close>

theorem bracket_content_gets_no_summary:
  "open_read sample_env (U ''/proj'') (Path_of (U ''docs/data.json'')) UTF8
     = Content (U ''[1, 2]'')
   \<and> truthy (Some (U ''gpt''))
   \<and> process_file sample_env (U ''/proj'') (Some (U ''gpt'')) False
        (Path_of (U ''docs/data.json''))
     = ([U ''## docs/data.json'',
         U ''### Summary'',
         U ''[No summary available]'',
         [],
         U ''### File Contents'',
         [96, 96, 96] @ U ''json'',
         U ''[1, 2]'',
         [96, 96, 96],
         []],
        [Getcwd, OpenRead (Path_of (U ''docs/data.json'')) UTF8])"
proof -
  have a: "open_read sample_env (U ''/proj'') (Path_of (U ''docs/data.json'')) UTF8
     = Content (U ''[1, 2]'')"
    by (simp add: env_eval path_eval)
  have b: "truthy (Some (U ''gpt''))" by (simp add: U_def)
  have s: "startswith (U ''[1, 2]'') (U ''['')" by (simp add: startswith_def U_def)
  have q: "U ''```'' = [96, 96, 96]" by (simp add: U_def)
  have c: "process_file sample_env (U ''/proj'') (Some (U ''gpt'')) False
        (Path_of (U ''docs/data.json''))
     = ([U ''## docs/data.json'',
         U ''### Summary'',
         U ''[No summary available]'',
         [],
         U ''### File Contents'',
         [96, 96, 96] @ U ''json'',
         U ''[1, 2]'',
         [96, 96, 96],
         []],
        [Getcwd, OpenRead (Path_of (U ''docs/data.json'')) UTF8])"
    using s
    apply (simp add: process_file_def getcwd_sample rel_json read_json lang_json str_json Let_def)
    apply (simp add: U_def)
    done
  from a b c show ?thesis by (intro conjI)
qed

end
